theory Spec2Isabelle
  imports Main "HOL-Library.Sublist" "HOL-Library.AList"
begin

section \<open>The LXD image vault of multipass (\<^verbatim>\<open>lxd_vm_image_vault.cpp\<close>)\<close>

text \<open>
  A shallow embedding of \<^verbatim>\<open>src/platform/backends/lxd/lxd_vm_image_vault.cpp\<close>.
  The vault talks to an LXD daemon through \<^verbatim>\<open>lxd_request\<close> and to the image catalog
  through a list of \<^verbatim>\<open>VMImageHost\<close>s. Both are collaborators: the daemon is a transition
  function on an abstract world \<open>'w\<close>, a host is a record of functions. Every request,
  log line and monitor call is appended to a trace, so that what the code does on the wire
  can be stated. Exceptions are values of type \<open>exn\<close>; a call that may throw returns
  \<open>exn + 'a\<close>, with \<open>Inl\<close> for the exception.

  Strings: \<^verbatim>\<open>std::string\<close> and \<^verbatim>\<open>QString\<close> are both \<open>string\<close>, the conversions
  between them the identity. \<^verbatim>\<open>QString("%1/x/%2").arg(a).arg(b)\<close> is \<open>a @ ''/x/'' @ b\<close>
  (the base URL holds no place marker), and a \<^verbatim>\<open>QUrl\<close> is its string.
\<close>

subsection \<open>JSON values (\<^verbatim>\<open>QJsonValue\<close>, \<^verbatim>\<open>QJsonObject\<close>, \<^verbatim>\<open>QJsonArray\<close>)\<close>

datatype json =
    JUndefined
  | JNull
  | JBool bool
  | JNum int
  | JString string
  | JArray "json list"
  | JObject "(string \<times> json) list"

type_synonym json_object = "(string \<times> json) list"

text \<open>\<^verbatim>\<open>obj[key]\<close>: the value under the key, Undefined when the key is absent.\<close>

definition obj_get :: "json_object \<Rightarrow> string \<Rightarrow> json" where
  "obj_get obj key = (case map_of obj key of None \<Rightarrow> JUndefined | Some v \<Rightarrow> v)"

definition obj_contains :: "json_object \<Rightarrow> string \<Rightarrow> bool" where
  "obj_contains obj key \<longleftrightarrow> map_of obj key \<noteq> None"

text \<open>\<^verbatim>\<open>QJsonObject::insert\<close>: replaces the value of a key that is present.\<close>

definition obj_insert :: "string \<Rightarrow> json \<Rightarrow> json_object \<Rightarrow> json_object" where
  "obj_insert key v obj = AList.update key v obj"

fun to_object :: "json \<Rightarrow> json_object" where
  "to_object (JObject kvs) = kvs"
| "to_object _ = []"

fun to_array :: "json \<Rightarrow> json list" where
  "to_array (JArray xs) = xs"
| "to_array _ = []"

fun to_string :: "json \<Rightarrow> string" where
  "to_string (JString s) = s"
| "to_string _ = []"

fun to_bool :: "json \<Rightarrow> bool" where
  "to_bool (JBool b) = b"
| "to_bool _ = False"

text \<open>\<^verbatim>\<open>toInt(default)\<close>: the number when it is one that fits a 32-bit \<^verbatim>\<open>int\<close>, else the default.\<close>

fun to_int :: "json \<Rightarrow> int \<Rightarrow> int" where
  "to_int (JNum n) d = (if - 2147483648 \<le> n \<and> n \<le> 2147483647 then n else d)"
| "to_int _ d = d"

subsection \<open>\<^verbatim>\<open>parse_percent_as_int\<close>: the regular expression \<^verbatim>\<open>\s(\d{1,3})%\<close>\<close>

text \<open>
  The pattern is searched for from the left (\<^verbatim>\<open>QRegularExpression::match\<close>), without the
  Unicode-properties option: \<^verbatim>\<open>\s\<close> is one of the six ASCII white-space characters and
  \<^verbatim>\<open>\d\<close> an ASCII digit.
\<close>

definition is_space :: "char \<Rightarrow> bool" where
  "is_space c \<longleftrightarrow> c \<in> set [CHR '' '', CHR 0x09, CHR 0x0A, CHR 0x0B, CHR 0x0C, CHR 0x0D]"

definition is_digit :: "char \<Rightarrow> bool" where
  "is_digit c \<longleftrightarrow> (48::nat) \<le> of_char c \<and> of_char c \<le> (57::nat)"

text \<open>\<^verbatim>\<open>QString::toInt\<close> on a string of decimal digits.\<close>

definition toInt :: "string \<Rightarrow> int" where
  "toInt ds = foldl (\<lambda>acc c. 10 * acc + (int (of_char c) - 48)) 0 ds"

text \<open>
  \<^verbatim>\<open>(\d{1,3})%\<close> at the head of a string: the greedy quantifier tries three digits, then
  two, then one, each time followed by the percent sign; the capture is the digits.
\<close>

fun digits_then_percent :: "nat \<Rightarrow> string \<Rightarrow> string option" where
  "digits_then_percent 0 cs = None"
| "digits_then_percent (Suc k) cs =
     (if Suc k \<le> length cs \<and> list_all is_digit (take (Suc k) cs) \<and> take 1 (drop (Suc k) cs) = ''%''
      then Some (take (Suc k) cs)
      else digits_then_percent k cs)"

definition match_here :: "string \<Rightarrow> string option" where
  "match_here s =
     (case s of [] \<Rightarrow> None | c # cs \<Rightarrow> if is_space c then digits_then_percent 3 cs else None)"

fun re_match :: "string \<Rightarrow> string option" where
  "re_match [] = None"
| "re_match (c # cs) =
     (case match_here (c # cs) of Some cap \<Rightarrow> Some cap | None \<Rightarrow> re_match cs)"

definition parse_percent_as_int :: "string \<Rightarrow> int" where
  "parse_percent_as_int progress_string =
     (case re_match progress_string of Some cap \<Rightarrow> toInt cap | None \<Rightarrow> - 1)"

text \<open>
  The specification's words, for comparison: a match at position \<open>i\<close> is a white-space
  character at \<open>i\<close>, then \<open>k\<close> digits with \<open>1 \<le> k \<le> 3\<close>, then the percent sign.
\<close>

definition spec_percent_at :: "string \<Rightarrow> nat \<Rightarrow> nat \<Rightarrow> bool" where
  "spec_percent_at s i k \<longleftrightarrow>
     1 \<le> k \<and> k \<le> 3 \<and> i + k + 1 < length s \<and> is_space (s ! i) \<and>
     list_all is_digit (take k (drop (Suc i) s)) \<and> s ! (i + k + 1) = CHR ''%''"

subsection \<open>Data model\<close>

text \<open>
  Modelled from the spec: the declarations of \<^verbatim>\<open>Query\<close>, \<^verbatim>\<open>VMImageInfo\<close>, \<^verbatim>\<open>VMImage\<close> and
  \<^verbatim>\<open>VMImageHost\<close> (their headers are not among the sources). The fields are those the
  specification's data model lists and the code reads or writes; the order of the fields of
  \<^verbatim>\<open>Query\<close> is that of its initialiser in \<^verbatim>\<open>tests/test_image_vault.cpp\<close>. A path that
  \<^verbatim>\<open>fetch_image\<close> never assigns keeps its default, the empty string. Two structs share the
  field names \<^verbatim>\<open>id\<close>, \<^verbatim>\<open>stream_location\<close> and \<^verbatim>\<open>aliases\<close>: those of \<^verbatim>\<open>VMImageInfo\<close> are
  prefixed with \<open>info_\<close>, and the \<^verbatim>\<open>id\<close> of a \<^verbatim>\<open>VMImage\<close> is \<open>vm_id\<close>.
\<close>

datatype Query_Type = Alias | LocalFile | HttpDownload

record Query =
  name :: string
  release :: string
  persistent :: bool
  remote_name :: string
  query_type :: Query_Type

record VMImageInfo =
  info_aliases :: "string list"
  release_title :: string
  info_id :: string
  info_stream_location :: string
  version :: string
  kernel_location :: string
  initrd_location :: string
  verify :: bool

record VMImage =
  image_path :: string
  kernel_path :: string
  initrd_path :: string
  vm_id :: string
  stream_location :: string
  original_release :: string
  release_date :: string
  aliases :: "string list"

text \<open>
  The exceptions of the program. \<^verbatim>\<open>lxd_request\<close> throws \<^verbatim>\<open>LXDNotFoundException\<close> or a
  transport error; a host's \<^verbatim>\<open>info_for_full_hash\<close> throws when it knows no such hash.
  All of them derive from \<^verbatim>\<open>std::exception\<close>.
\<close>

datatype exn =
    LXDNotFoundException
  | LXDRuntimeError string
  | RuntimeError string
  | AbortedDownloadException string
  | HostException string

text \<open>
  A \<^verbatim>\<open>VMImageHost\<close>, the catalog backend, as it stands when a function of the vault is
  called. The object has state of its own (it refreshes its manifests): a catalog that
  changes between two calls is a different host, and so a different vault value, at the
  second call.
\<close>

record VMImageHost =
  supported_remotes :: "string list"
  host_info_for :: "Query \<Rightarrow> VMImageInfo option"
  info_for_full_hash :: "string \<Rightarrow> exn + VMImageInfo"

datatype Level = Level_error | Level_warning | Level_info | Level_debug

datatype event =
    Request string string "json_object option"
  | Log Level string string
  | Monitor int int bool

datatype lxd_reply = Reply json_object | NotFound | Failure string

text \<open>
  The collaborators are parameters of the model. What the vault runs on: the daemon behind
  \<^verbatim>\<open>lxd_request\<close> (method, URL, body), the system clock (\<^verbatim>\<open>system_clock::now()\<close>, a 64-bit
  count of nanoseconds since the epoch), the two platform predicates, and Qt's
  \<^verbatim>\<open>QDateTime::fromString(_, Qt::ISODateWithMs).toMSecsSinceEpoch()\<close>. A monitor is a callback
  of the caller: it reads the world and may change it.
\<close>

record 'w platform =
  transport :: "'w \<Rightarrow> string \<Rightarrow> string \<Rightarrow> json_object option \<Rightarrow> lxd_reply \<times> 'w"
  system_clock_now :: "'w \<Rightarrow> int"
  is_remote_supported :: "string \<Rightarrow> bool"
  is_image_url_supported :: bool
  iso_date_to_msecs :: "string \<Rightarrow> int"

record 'w vstate =
  world :: 'w
  trace :: "event list"

type_synonym 'w ProgressMonitor = "'w \<Rightarrow> int \<Rightarrow> int \<Rightarrow> bool \<times> 'w"

type_synonym 'w TaskCompleteAction = "json_object \<Rightarrow> 'w vstate \<Rightarrow> 'w vstate"

record LXDVMImageVault =
  image_hosts :: "VMImageHost list"
  days_to_expire :: int
  base_url :: string
  remote_image_host_map :: "string \<Rightarrow> VMImageHost option"

definition category :: string where
  "category = ''lxd image vault''"

text \<open>
  Modelled from the spec: \<^verbatim>\<open>LaunchProgress::IMAGE\<close>, the progress type handed to the monitor
  (an enumerator of the generated RPC code, its first).
\<close>

definition LaunchProgress_IMAGE :: int where
  "LaunchProgress_IMAGE = 0"

text \<open>The log messages (\<^verbatim>\<open>fmt::format\<close> with one argument between single quotes).\<close>

definition ellipsis :: string where
  "ellipsis = [CHR 0xE2, CHR 0x80, CHR 0xA6]"

definition quoted :: "string \<Rightarrow> string" where
  "quoted x = [CHR 0x27] @ x @ [CHR 0x27]"

definition not_removing_message :: "string \<Rightarrow> string" where
  "not_removing_message nm = ''Instance '' @ quoted nm @ '' does not exist: not removing''"

definition expired_message :: "string \<Rightarrow> string" where
  "expired_message rel = ''Source image '' @ quoted rel @ '' is expired. Removing it'' @ ellipsis"

definition checking_message :: "string \<Rightarrow> string" where
  "checking_message rel = ''Checking if '' @ quoted rel @ '' needs updating'' @ ellipsis"

definition update_complete_message :: "string \<Rightarrow> string" where
  "update_complete_message rel = ''Image update for '' @ quoted rel @ '' complete.''"

definition no_update_message :: "string \<Rightarrow> string" where
  "no_update_message rel = ''No image update for '' @ quoted rel @ ''.''"

text \<open>The resources of the daemon, by URL.\<close>

definition existing_instance_url :: "LXDVMImageVault \<Rightarrow> string \<Rightarrow> string" where
  "existing_instance_url v nm = base_url v @ ''/virtual_machines/'' @ nm"

definition instance_url :: "LXDVMImageVault \<Rightarrow> string \<Rightarrow> string" where
  "instance_url v nm = base_url v @ ''/virtual-machines/'' @ nm"

definition images_url :: "LXDVMImageVault \<Rightarrow> string" where
  "images_url v = base_url v @ ''/images''"

definition image_id_url :: "LXDVMImageVault \<Rightarrow> string \<Rightarrow> string" where
  "image_id_url v id' = base_url v @ ''/images/'' @ id'"

definition refresh_url :: "LXDVMImageVault \<Rightarrow> string \<Rightarrow> string" where
  "refresh_url v id' = base_url v @ ''/images/'' @ id' @ ''/refresh''"

definition operation_url :: "LXDVMImageVault \<Rightarrow> string \<Rightarrow> string" where
  "operation_url v op_id = base_url v @ ''/operations/'' @ op_id"

subsection \<open>Effects\<close>

text \<open>
  Modelled from the spec: \<^verbatim>\<open>lxd_request\<close> (\<^verbatim>\<open>lxd_request.cpp\<close> is not among the sources).
  It issues the request and returns the parsed JSON, raises the distinguished not-found
  error for a 404-equivalent reply and a generic transport error otherwise.
\<close>

definition reply_result :: "lxd_reply \<Rightarrow> exn + json_object" where
  "reply_result r =
     (case r of
        Reply j \<Rightarrow> Inr j
      | NotFound \<Rightarrow> Inl LXDNotFoundException
      | Failure m \<Rightarrow> Inl (LXDRuntimeError m))"

definition lxd_request ::
  "'w platform \<Rightarrow> string \<Rightarrow> string \<Rightarrow> json_object option \<Rightarrow> 'w vstate \<Rightarrow> (exn + json_object) \<times> 'w vstate" where
  "lxd_request P method url body s =
     (case transport P (world s) method url body of
        (r, w') \<Rightarrow> (reply_result r, \<lparr>world = w', trace = trace s @ [Request method url body]\<rparr>))"

definition log :: "Level \<Rightarrow> string \<Rightarrow> string \<Rightarrow> 'w vstate \<Rightarrow> 'w vstate" where
  "log level cat msg s = s\<lparr>trace := trace s @ [Log level cat msg]\<rparr>"

definition call_monitor :: "'w ProgressMonitor \<Rightarrow> int \<Rightarrow> int \<Rightarrow> 'w vstate \<Rightarrow> bool \<times> 'w vstate" where
  "call_monitor monitor t progress s =
     (case monitor (world s) t progress of
        (b, w') \<Rightarrow> (b, \<lparr>world = w', trace = trace s @ [Monitor t progress b]\<rparr>))"

subsection \<open>Construction and \<^verbatim>\<open>info_for\<close>\<close>

definition add_remotes :: "'w platform \<Rightarrow> (string \<Rightarrow> VMImageHost option) \<Rightarrow> VMImageHost \<Rightarrow> (string \<Rightarrow> VMImageHost option)" where
  "add_remotes P m image_host =
     foldl (\<lambda>m remote. if is_remote_supported P remote then m(remote \<mapsto> image_host) else m)
       m (supported_remotes image_host)"

definition new_LXDVMImageVault :: "'w platform \<Rightarrow> VMImageHost list \<Rightarrow> int \<Rightarrow> string \<Rightarrow> LXDVMImageVault" where
  "new_LXDVMImageVault P hosts days url =
     \<lparr>image_hosts = hosts, days_to_expire = days, base_url = url,
      remote_image_host_map = foldl (add_remotes P) Map.empty hosts\<rparr>"

definition unknown_remote :: "string \<Rightarrow> exn" where
  "unknown_remote r = RuntimeError (''Remote \"'' @ r @ ''\" is unknown.'')"

definition no_matching_image :: "string \<Rightarrow> exn" where
  "no_matching_image r = RuntimeError (''Unable to find an image matching \"'' @ r @ ''\"'')"

fun first_info :: "VMImageHost list \<Rightarrow> Query \<Rightarrow> VMImageInfo option" where
  "first_info [] query = None"
| "first_info (image_host # rest) query =
     (case host_info_for image_host query of
        Some info \<Rightarrow> Some info
      | None \<Rightarrow> first_info rest query)"

definition info_for :: "LXDVMImageVault \<Rightarrow> Query \<Rightarrow> exn + VMImageInfo" where
  "info_for v query =
     (if remote_name query \<noteq> [] then
        (case remote_image_host_map v (remote_name query) of
           None \<Rightarrow> Inl (unknown_remote (remote_name query))
         | Some image_host \<Rightarrow>
             (case host_info_for image_host query of
                Some info \<Rightarrow> Inr info
              | None \<Rightarrow> Inl (no_matching_image (release query))))
      else
        (case first_info (image_hosts v) query of
           Some info \<Rightarrow> Inr info
         | None \<Rightarrow> Inl (no_matching_image (release query))))"

subsection \<open>\<^verbatim>\<open>poll_download_operation\<close>\<close>

text \<open>
  The \<^verbatim>\<open>while (true)\<close> loop, with fuel: one unit per iteration, and \<open>None\<close> as the result
  when the fuel runs out (the state reached is kept). The handler for
  \<^verbatim>\<open>LXDNotFoundException\<close> encloses the whole body, the \<^verbatim>\<open>DELETE\<close> included. The one
  second of sleep between two polls is not modelled.
\<close>

fun poll_loop ::
  "nat \<Rightarrow> 'w platform \<Rightarrow> string \<Rightarrow> 'w ProgressMonitor \<Rightarrow> 'w TaskCompleteAction \<Rightarrow> 'w vstate
     \<Rightarrow> (exn + unit) option \<times> 'w vstate" where
  "poll_loop 0 P task_url monitor task_complete s = (None, s)"
| "poll_loop (Suc n) P task_url monitor task_complete s =
     (case lxd_request P ''GET'' task_url None s of
        (Inl e, s1) \<Rightarrow>
          if e = LXDNotFoundException then (Some (Inr ()), s1) else (Some (Inl e), s1)
      | (Inr task_reply, s1) \<Rightarrow>
          if to_int (obj_get task_reply ''error_code'') (- 1) \<noteq> 0 then (Some (Inr ()), s1)
          else
            let metadata = to_object (obj_get task_reply ''metadata'');
                status_code = to_int (obj_get metadata ''status_code'') (- 1)
            in if status_code = 200 then (Some (Inr ()), task_complete metadata s1)
               else
                 let download_progress =
                       parse_percent_as_int
                         (to_string (obj_get (to_object (obj_get metadata ''metadata'')) ''download_progress''))
                 in (case call_monitor monitor LaunchProgress_IMAGE download_progress s1 of
                       (go_on, s2) \<Rightarrow>
                         if \<not> go_on then
                           (case lxd_request P ''DELETE'' task_url None s2 of
                              (Inl e, s3) \<Rightarrow>
                                if e = LXDNotFoundException then (Some (Inr ()), s3)
                                else (Some (Inl e), s3)
                            | (Inr r, s3) \<Rightarrow>
                                (Some (Inl (AbortedDownloadException ''Download aborted'')), s3))
                         else poll_loop n P task_url monitor task_complete s2))"

definition poll_download_operation ::
  "nat \<Rightarrow> 'w platform \<Rightarrow> LXDVMImageVault \<Rightarrow> json_object \<Rightarrow> 'w ProgressMonitor \<Rightarrow> 'w TaskCompleteAction
     \<Rightarrow> 'w vstate \<Rightarrow> (exn + unit) option \<times> 'w vstate" where
  "poll_download_operation n P v json_reply monitor task_complete s =
     (if obj_get (to_object (obj_get json_reply ''metadata'')) ''class'' = JString ''task'' \<and>
         to_int (obj_get json_reply ''status_code'') (- 1) = 100
      then poll_loop n P
             (operation_url v (to_string (obj_get (to_object (obj_get json_reply ''metadata'')) ''id'')))
             monitor task_complete s
      else (Some (Inr ()), s))"

text \<open>
  An iteration of the loop that goes round again: the poll is answered, carries error code 0
  and a status other than 200, and the monitor says to go on. \<open>polls k\<close> is \<open>k\<close> of them.
\<close>

definition in_progress_poll :: "'w platform \<Rightarrow> string \<Rightarrow> 'w ProgressMonitor \<Rightarrow> 'w vstate \<Rightarrow> 'w vstate option" where
  "in_progress_poll P task_url monitor s =
     (case lxd_request P ''GET'' task_url None s of
        (Inl e, s1) \<Rightarrow> None
      | (Inr task_reply, s1) \<Rightarrow>
          if to_int (obj_get task_reply ''error_code'') (- 1) = 0 \<and>
             to_int (obj_get (to_object (obj_get task_reply ''metadata'')) ''status_code'') (- 1) \<noteq> 200
          then (case call_monitor monitor LaunchProgress_IMAGE
                       (parse_percent_as_int
                          (to_string (obj_get (to_object (obj_get (to_object (obj_get task_reply ''metadata'')) ''metadata''))
                             ''download_progress''))) s1 of
                  (go_on, s2) \<Rightarrow> if go_on then Some s2 else None)
          else None)"

fun polls :: "nat \<Rightarrow> 'w platform \<Rightarrow> string \<Rightarrow> 'w ProgressMonitor \<Rightarrow> 'w vstate \<Rightarrow> 'w vstate option" where
  "polls 0 P task_url monitor s = Some s"
| "polls (Suc k) P task_url monitor s =
     (case in_progress_poll P task_url monitor s of
        None \<Rightarrow> None
      | Some s' \<Rightarrow> polls k P task_url monitor s')"

text \<open>The default completion action of \<^verbatim>\<open>fetch_image\<close>: nothing.\<close>

definition no_task_complete :: "'w TaskCompleteAction" where
  "no_task_complete metadata s = s"

subsection \<open>\<^verbatim>\<open>fetch_image\<close>\<close>

definition source_image_of :: "string \<Rightarrow> VMImageInfo \<Rightarrow> VMImage" where
  "source_image_of id' info =
     \<lparr>image_path = [], kernel_path = [], initrd_path = [],
      vm_id = id',
      stream_location = info_stream_location info,
      original_release = release_title info,
      release_date = version info,
      aliases = info_aliases info\<rparr>"

text \<open>
  The inner loop of the first block: each host is asked for the full hash, and a host that
  throws is skipped. The images built here are locals of the block.
\<close>

fun full_hash_images :: "VMImageHost list \<Rightarrow> string \<Rightarrow> VMImage list" where
  "full_hash_images [] id' = []"
| "full_hash_images (image_host # rest) id' =
     (case info_for_full_hash image_host id' of
        Inl e \<Rightarrow> full_hash_images rest id'
      | Inr info \<Rightarrow> source_image_of id' info # full_hash_images rest id')"

text \<open>The body of the outer \<^verbatim>\<open>try\<close> of the first block.\<close>

definition existing_instance_lookup ::
  "'w platform \<Rightarrow> LXDVMImageVault \<Rightarrow> Query \<Rightarrow> 'w vstate \<Rightarrow> (exn + VMImage list) \<times> 'w vstate" where
  "existing_instance_lookup P v query s =
     (case lxd_request P ''GET'' (existing_instance_url v (name query)) None s of
        (Inl e, s1) \<Rightarrow> (Inl e, s1)
      | (Inr instance_info, s1) \<Rightarrow>
          (let id' = to_string
                       (obj_get (to_object (obj_get (to_object (obj_get instance_info ''metadata'')) ''config''))
                          ''volatile.base_image'')
           in (Inr (full_hash_images (image_hosts v) id'), s1)))"

definition pull_source_object :: "Query \<Rightarrow> VMImageInfo \<Rightarrow> json_object" where
  "pull_source_object query info =
     (let source_object =
            obj_insert ''image_type'' (JString ''virtual-machine'')
              (obj_insert ''protocol'' (JString ''simplestreams'')
                (obj_insert ''server'' (JString (info_stream_location info))
                  (obj_insert ''mode'' (JString ''pull'')
                    (obj_insert ''type'' (JString ''image'') []))))
      in if prefix (release query) (info_id info)
         then obj_insert ''fingerprint'' (JString (info_id info)) source_object
         else obj_insert ''alias'' (JString (release query)) source_object)"

text \<open>
  \<^verbatim>\<open>fetch_image\<close> from the check of the query type on (after the first block).
\<close>

definition fetch_resolved ::
  "nat \<Rightarrow> 'w platform \<Rightarrow> LXDVMImageVault \<Rightarrow> Query \<Rightarrow> 'w ProgressMonitor \<Rightarrow> 'w vstate
     \<Rightarrow> (exn + VMImage) option \<times> 'w vstate" where
  "fetch_resolved n P v query monitor s1 =
     (if query_type query \<noteq> Alias \<and> \<not> is_image_url_supported P
      then (Some (Inl (RuntimeError ''http and file based images are not supported'')), s1)
      else
        (case info_for v query of
           Inl e \<Rightarrow> (Some (Inl e), s1)
         | Inr info \<Rightarrow>
             let id' = info_id info;
                 source_image = source_image_of id' info
             in (case lxd_request P ''GET'' (image_id_url v id') None s1 of
                   (Inr json_reply, s2) \<Rightarrow> (Some (Inr source_image), s2)
                 | (Inl e, s2) \<Rightarrow>
                     if e = LXDNotFoundException then
                       (let image_object = [(''source'', JObject (pull_source_object query info))]
                        in (case lxd_request P ''POST'' (images_url v) (Some image_object) s2 of
                              (Inl e', s3) \<Rightarrow> (Some (Inl e'), s3)
                            | (Inr json_reply, s3) \<Rightarrow>
                                (case poll_download_operation n P v json_reply monitor no_task_complete s3 of
                                   (None, s4) \<Rightarrow> (None, s4)
                                 | (Some (Inl e''), s4) \<Rightarrow> (Some (Inl e''), s4)
                                 | (Some (Inr u), s4) \<Rightarrow> (Some (Inr source_image), s4))))
                     else (Some (Inl e), s2))))"

text \<open>
  \<^verbatim>\<open>fetch_image\<close>. Its \<^verbatim>\<open>fetch_type\<close> and \<^verbatim>\<open>prepare\<close> arguments are never used by the
  code and are left out. The first block is run for its effects only: whether it returns or
  throws (both handlers are empty), the function goes on from the state it leaves.
\<close>

definition fetch_image ::
  "nat \<Rightarrow> 'w platform \<Rightarrow> LXDVMImageVault \<Rightarrow> Query \<Rightarrow> 'w ProgressMonitor \<Rightarrow> 'w vstate
     \<Rightarrow> (exn + VMImage) option \<times> 'w vstate" where
  "fetch_image n P v query monitor s =
     (case existing_instance_lookup P v query s of
        (outcome, s1) \<Rightarrow> fetch_resolved n P v query monitor s1)"

subsection \<open>\<^verbatim>\<open>remove\<close> and \<^verbatim>\<open>has_record_for\<close>\<close>

definition remove :: "'w platform \<Rightarrow> LXDVMImageVault \<Rightarrow> string \<Rightarrow> 'w vstate \<Rightarrow> (exn + unit) \<times> 'w vstate" where
  "remove P v nm s =
     (case lxd_request P ''DELETE'' (instance_url v nm) None s of
        (Inr r, s1) \<Rightarrow> (Inr (), s1)
      | (Inl e, s1) \<Rightarrow>
          if e = LXDNotFoundException
          then (Inr (), log Level_warning category (not_removing_message nm) s1)
          else (Inl e, s1))"

definition has_record_for :: "'w platform \<Rightarrow> LXDVMImageVault \<Rightarrow> string \<Rightarrow> 'w vstate \<Rightarrow> (exn + bool) \<times> 'w vstate" where
  "has_record_for P v nm s =
     (case lxd_request P ''GET'' (instance_url v nm) None s of
        (Inr r, s1) \<Rightarrow> (Inr True, s1)
      | (Inl e, s1) \<Rightarrow> if e = LXDNotFoundException then (Inr False, s1) else (Inl e, s1))"

subsection \<open>\<^verbatim>\<open>prune_expired_images\<close>\<close>

text \<open>
  Times. The parsed \<^verbatim>\<open>last_used_at\<close> is a 64-bit count of milliseconds;
  \<^verbatim>\<open>time_point(milliseconds(..))\<close> converts it to the clock's duration, 64-bit nanoseconds on
  the Linux target of this backend, and \<^verbatim>\<open>+ days_to_expire\<close> converts the days (a 32-bit
  count of 86400 s) to nanoseconds as well and adds. All three operations are on
  \<^verbatim>\<open>int64\<close>; where they overflow, the two's-complement wrap-around of the target is
  written out. The clock is read once for each image that has an \<^verbatim>\<open>update_source\<close>.
\<close>

definition int64_range :: "int \<Rightarrow> bool" where
  "int64_range x \<longleftrightarrow> - 9223372036854775808 \<le> x \<and> x < 9223372036854775808"

definition wrap64 :: "int \<Rightarrow> int" where
  "wrap64 x = (x + 9223372036854775808) mod 18446744073709551616 - 9223372036854775808"

definition msecs_to_nsecs :: "int \<Rightarrow> int" where
  "msecs_to_nsecs ms = wrap64 (ms * 1000000)"

definition days_to_nsecs :: "int \<Rightarrow> int" where
  "days_to_nsecs d = wrap64 (d * 86400000000000)"

definition last_used_nsecs :: "'w platform \<Rightarrow> json_object \<Rightarrow> int" where
  "last_used_nsecs P image_info =
     msecs_to_nsecs (iso_date_to_msecs P (to_string (obj_get image_info ''last_used_at'')))"

definition image_expired :: "'w platform \<Rightarrow> LXDVMImageVault \<Rightarrow> int \<Rightarrow> json_object \<Rightarrow> bool" where
  "image_expired P v now image_info \<longleftrightarrow>
     obj_contains image_info ''update_source'' \<and>
     wrap64 (last_used_nsecs P image_info + days_to_nsecs (days_to_expire v)) \<le> now"

definition image_url :: "LXDVMImageVault \<Rightarrow> json_object \<Rightarrow> string" where
  "image_url v image_info = image_id_url v (to_string (obj_get image_info ''fingerprint''))"

definition image_release :: "json_object \<Rightarrow> string" where
  "image_release image_info = to_string (obj_get (to_object (obj_get image_info ''properties'')) ''release'')"

fun prune_loop :: "'w platform \<Rightarrow> LXDVMImageVault \<Rightarrow> json list \<Rightarrow> 'w vstate \<Rightarrow> (exn + unit) \<times> 'w vstate" where
  "prune_loop P v [] s = (Inr (), s)"
| "prune_loop P v (img # images) s =
     (let image_info = to_object img
      in if image_expired P v (system_clock_now P (world s)) image_info then
           (case lxd_request P ''DELETE'' (image_url v image_info) None
                   (log Level_info category (expired_message (image_release image_info)) s) of
              (Inl e, s1) \<Rightarrow> (Inl e, s1)
            | (Inr r, s1) \<Rightarrow> prune_loop P v images s1)
         else prune_loop P v images s)"

definition prune_expired_images :: "'w platform \<Rightarrow> LXDVMImageVault \<Rightarrow> 'w vstate \<Rightarrow> (exn + unit) \<times> 'w vstate" where
  "prune_expired_images P v s =
     (case lxd_request P ''GET'' (images_url v) None s of
        (Inl e, s1) \<Rightarrow> (Inl e, s1)
      | (Inr json_reply, s1) \<Rightarrow> prune_loop P v (to_array (obj_get json_reply ''metadata'')) s1)"

subsection \<open>\<^verbatim>\<open>update_images\<close>\<close>

definition refresh_task_complete :: "string \<Rightarrow> 'w TaskCompleteAction" where
  "refresh_task_complete rel metadata s =
     (if to_bool (obj_get metadata ''refreshed'')
      then log Level_info category (update_complete_message rel) s
      else log Level_info category (no_update_message rel) s)"

fun update_loop ::
  "nat \<Rightarrow> 'w platform \<Rightarrow> LXDVMImageVault \<Rightarrow> 'w ProgressMonitor \<Rightarrow> json list \<Rightarrow> 'w vstate
     \<Rightarrow> (exn + unit) option \<times> 'w vstate" where
  "update_loop n P v monitor [] s = (Some (Inr ()), s)"
| "update_loop n P v monitor (img # images) s =
     (let image_info = to_object img
      in if obj_contains image_info ''update_source'' then
           (case lxd_request P ''POST'' (refresh_url v (to_string (obj_get image_info ''fingerprint''))) None
                   (log Level_info category (checking_message (image_release image_info)) s) of
              (Inl e, s1) \<Rightarrow> (Some (Inl e), s1)
            | (Inr json_reply, s1) \<Rightarrow>
                (case poll_download_operation n P v json_reply monitor
                        (refresh_task_complete (image_release image_info)) s1 of
                   (Some (Inr u), s2) \<Rightarrow> update_loop n P v monitor images s2
                 | (Some (Inl e), s2) \<Rightarrow> (Some (Inl e), s2)
                 | (None, s2) \<Rightarrow> (None, s2)))
         else update_loop n P v monitor images s)"

definition update_images ::
  "nat \<Rightarrow> 'w platform \<Rightarrow> LXDVMImageVault \<Rightarrow> 'w ProgressMonitor \<Rightarrow> 'w vstate
     \<Rightarrow> (exn + unit) option \<times> 'w vstate" where
  "update_images n P v monitor s =
     (case lxd_request P ''GET'' (images_url v) None s of
        (Inl e, s1) \<Rightarrow> (Some (Inl e), s1)
      | (Inr json_reply, s1) \<Rightarrow> update_loop n P v monitor (to_array (obj_get json_reply ''metadata'')) s1)"

subsection \<open>Reading a trace\<close>

text \<open>The URLs of the \<^verbatim>\<open>DELETE\<close> requests of a trace, and its pull requests.\<close>

fun deleted_urls :: "event list \<Rightarrow> string list" where
  "deleted_urls [] = []"
| "deleted_urls (Request method url body # evs) =
     (if method = ''DELETE'' then url # deleted_urls evs else deleted_urls evs)"
| "deleted_urls (e # evs) = deleted_urls evs"

fun is_pull_request :: "LXDVMImageVault \<Rightarrow> event \<Rightarrow> bool" where
  "is_pull_request v (Request method url body) \<longleftrightarrow> method = ''POST'' \<and> url = images_url v"
| "is_pull_request v e \<longleftrightarrow> False"

text \<open>
  The specification's words for a sweep, for comparison: delete the given images one after
  the other and stop at the first request that fails. The result is the outcome and the
  URLs requested.
\<close>

fun delete_until_failure :: "'w platform \<Rightarrow> string list \<Rightarrow> 'w \<Rightarrow> (exn + unit) \<times> string list" where
  "delete_until_failure P [] w = (Inr (), [])"
| "delete_until_failure P (url # urls) w =
     (case transport P w ''DELETE'' url None of
        (r, w') \<Rightarrow>
          (case reply_result r of
             Inl e \<Rightarrow> (Inl e, [url])
           | Inr j \<Rightarrow>
               (case delete_until_failure P urls w' of
                  (res, issued) \<Rightarrow> (res, url # issued))))"

text \<open>
  The refresh of a tracked image is under way: the refresh request was answered by a task,
  and \<open>k\<close> polls of its operation went round. Gives the URL of the operation and the state
  reached.
\<close>

definition refresh_polled ::
  "'w platform \<Rightarrow> LXDVMImageVault \<Rightarrow> 'w ProgressMonitor \<Rightarrow> json \<Rightarrow> nat \<Rightarrow> 'w vstate
     \<Rightarrow> (string \<times> 'w vstate) option" where
  "refresh_polled P v monitor img k s =
     (case lxd_request P ''POST'' (refresh_url v (to_string (obj_get (to_object img) ''fingerprint''))) None
             (log Level_info category (checking_message (image_release (to_object img))) s) of
        (Inl e, s1) \<Rightarrow> None
      | (Inr json_reply, s1) \<Rightarrow>
          if obj_contains (to_object img) ''update_source'' \<and>
             obj_get (to_object (obj_get json_reply ''metadata'')) ''class'' = JString ''task'' \<and>
             to_int (obj_get json_reply ''status_code'') (- 1) = 100
          then map_option
                 (Pair (operation_url v (to_string (obj_get (to_object (obj_get json_reply ''metadata'')) ''id''))))
                 (polls k P
                    (operation_url v (to_string (obj_get (to_object (obj_get json_reply ''metadata'')) ''id'')))
                    monitor s1)
          else None)"

subsection \<open>A concrete daemon, catalog and vault\<close>

text \<open>
  A scripted daemon: the world is the number of requests made so far, and the \<open>w\<close>-th
  request is answered by the \<open>w\<close>-th reply of the script (not-found once it is used up).
\<close>

definition script_transport ::
  "lxd_reply list \<Rightarrow> nat \<Rightarrow> string \<Rightarrow> string \<Rightarrow> json_object option \<Rightarrow> lxd_reply \<times> nat" where
  "script_transport script w method url body =
     ((if w < length script then script ! w else NotFound), Suc w)"

definition ex_iso_date :: "string \<Rightarrow> int" where
  "ex_iso_date d =
     (if d = ''2020-09-13T12:26:40.000Z'' then 1600000000000
      else if d = ''2020-01-01T00:00:00.000Z'' then 1577836800000
      else if d = ''2100-01-01T00:00:00.000Z'' then 4102444800000
      else if d = ''2300-01-01T00:00:00.000Z'' then 10413792000000
      else 0)"

definition ex_platform :: "lxd_reply list \<Rightarrow> nat platform" where
  "ex_platform script =
     \<lparr>transport = script_transport script,
      system_clock_now = (\<lambda>w. 1600000000000000000),
      is_remote_supported = (\<lambda>r. r = ''release'' \<or> r = ''daily''),
      is_image_url_supported = False,
      iso_date_to_msecs = ex_iso_date\<rparr>"

definition ex_info :: VMImageInfo where
  "ex_info =
     \<lparr>info_aliases = [''xenial'', ''x''], release_title = ''16.04 LTS'', info_id = ''abc123'',
      info_stream_location = ''https://cloud-images.ubuntu.com/releases'', version = ''20200101'',
      kernel_location = [], initrd_location = [], verify = True\<rparr>"

definition ex_host :: VMImageHost where
  "ex_host =
     \<lparr>supported_remotes = [''release'', ''appliance''],
      host_info_for = (\<lambda>q. if release q = ''xenial'' \<or> release q = ''abc'' then Some ex_info else None),
      info_for_full_hash = (\<lambda>h. if h = ''abc123'' then Inr ex_info else Inl (HostException ''unknown hash''))\<rparr>"

definition ex_empty_host :: VMImageHost where
  "ex_empty_host =
     \<lparr>supported_remotes = [''daily''],
      host_info_for = (\<lambda>q. None),
      info_for_full_hash = (\<lambda>h. Inl (HostException ''unknown hash''))\<rparr>"

definition ex_vault :: "int \<Rightarrow> LXDVMImageVault" where
  "ex_vault days = new_LXDVMImageVault (ex_platform []) [ex_empty_host, ex_host] days ''unix:/lxd/1.0''"

definition ex_query :: "string \<Rightarrow> string \<Rightarrow> Query" where
  "ex_query rel remote =
     \<lparr>name = ''inst'', release = rel, persistent = False, remote_name = remote, query_type = Alias\<rparr>"

definition ex_start :: "nat vstate" where
  "ex_start = \<lparr>world = 0, trace = []\<rparr>"

definition always_continue :: "nat ProgressMonitor" where
  "always_continue w t progress = (True, w)"

definition always_abort :: "nat ProgressMonitor" where
  "always_abort w t progress = (False, w)"

text \<open>A monitor that lets two requests pass and then asks to stop.\<close>

definition abort_after_two :: "nat ProgressMonitor" where
  "abort_after_two w t progress = (w < 2, w)"

definition ex_task :: json_object where
  "ex_task =
     [(''metadata'', JObject [(''class'', JString ''task''), (''id'', JString ''op1'')]),
      (''status_code'', JNum 100)]"

definition ex_progress :: json_object where
  "ex_progress =
     [(''error_code'', JNum 0),
      (''metadata'', JObject
         [(''status_code'', JNum 103),
          (''metadata'', JObject [(''download_progress'', JString ''rootfs: 45% (1.2MB/s)'')])])]"

definition ex_failed :: json_object where
  "ex_failed = [(''error_code'', JNum 500), (''error'', JString ''pull failed'')]"

definition ex_image :: "string \<Rightarrow> string \<Rightarrow> bool \<Rightarrow> json" where
  "ex_image fingerprint last_used tracked =
     JObject
       ([(''fingerprint'', JString fingerprint), (''last_used_at'', JString last_used),
         (''properties'', JObject [(''release'', JString ''xenial'')])] @
        (if tracked then [(''update_source'', JObject [(''alias'', JString ''xenial'')])] else []))"

definition ex_listing :: "json list \<Rightarrow> json_object" where
  "ex_listing images = [(''metadata'', JArray images)]"

text \<open>Scripts: what the daemon answers, request after request.\<close>

definition ex_pull_script :: "lxd_reply list" where
  "ex_pull_script = [NotFound, NotFound, Reply ex_task, Reply ex_progress, Reply ex_failed]"

definition ex_twice_script :: "lxd_reply list" where
  "ex_twice_script =
     [NotFound, NotFound, Reply ex_task, Reply ex_failed,
      NotFound, NotFound, Reply ex_task, Reply ex_failed]"

definition ex_found_script :: "lxd_reply list" where
  "ex_found_script = [Failure ''connection refused'', Reply [], NotFound, Reply []]"

definition ex_abort_script :: "lxd_reply list" where
  "ex_abort_script = [Reply ex_progress, Reply ex_progress, Reply []]"

definition ex_abort_fail_script :: "lxd_reply list" where
  "ex_abort_fail_script = [Reply ex_progress, Failure ''connection reset'']"

definition ex_refresh_script :: "lxd_reply list" where
  "ex_refresh_script = [Reply ex_task, Reply ex_progress, Reply ex_failed]"

definition ex_refresh_abort_script :: "lxd_reply list" where
  "ex_refresh_abort_script = [Reply ex_task, Reply ex_progress, Reply []]"

definition ex_tracked_listing :: json_object where
  "ex_tracked_listing =
     ex_listing [ex_image ''f1'' ''2020-01-01T00:00:00.000Z'' True,
                 ex_image ''f2'' ''2020-01-01T00:00:00.000Z'' True]"

definition ex_update_script :: "lxd_reply list" where
  "ex_update_script = [Reply ex_tracked_listing, Failure ''refresh failed'']"

definition ex_mixed_listing :: json_object where
  "ex_mixed_listing =
     ex_listing [ex_image ''f1'' ''2020-01-01T00:00:00.000Z'' True,
                 ex_image ''f2'' ''2020-01-01T00:00:00.000Z'' False,
                 ex_image ''f3'' ''2100-01-01T00:00:00.000Z'' True]"

definition ex_prune_script :: "lxd_reply list" where
  "ex_prune_script = [Reply ex_mixed_listing, Reply []]"

definition ex_future_script :: "lxd_reply list" where
  "ex_future_script = [Reply (ex_listing [ex_image ''f3'' ''2100-01-01T00:00:00.000Z'' True])]"

definition ex_prune_fail_script :: "lxd_reply list" where
  "ex_prune_fail_script = [Reply ex_tracked_listing, Failure ''connection reset'']"

definition ex_overflow_script :: "lxd_reply list" where
  "ex_overflow_script = [Reply (ex_listing [ex_image ''f5'' ''2300-01-01T00:00:00.000Z'' True]), Reply []]"

definition ex_refresh_fail_script :: "lxd_reply list" where
  "ex_refresh_fail_script = [Reply ex_task, Reply ex_progress, Failure ''connection reset'']"

definition ex_refresh_gone_script :: "lxd_reply list" where
  "ex_refresh_gone_script = [Reply ex_task, Reply ex_progress]"

text \<open>The catalog after a new image was published under the same alias.\<close>

definition ex_new_info :: VMImageInfo where
  "ex_new_info =
     \<lparr>info_aliases = [''xenial'', ''x''], release_title = ''16.04 LTS'', info_id = ''def456'',
      info_stream_location = ''https://cloud-images.ubuntu.com/releases'', version = ''20200202'',
      kernel_location = [], initrd_location = [], verify = True\<rparr>"

definition ex_new_host :: VMImageHost where
  "ex_new_host =
     \<lparr>supported_remotes = [''release'', ''appliance''],
      host_info_for = (\<lambda>q. if release q = ''xenial'' then Some ex_new_info else None),
      info_for_full_hash = (\<lambda>h. if h = ''def456'' then Inr ex_new_info else Inl (HostException ''unknown hash''))\<rparr>"

definition ex_new_vault :: "int \<Rightarrow> LXDVMImageVault" where
  "ex_new_vault days = new_LXDVMImageVault (ex_platform []) [ex_empty_host, ex_new_host] days ''unix:/lxd/1.0''"

section \<open>Properties\<close>

subsection \<open>The progress pattern\<close>

lemma percent_not_digit: "\<not> is_digit CHR ''%''"
  by (simp add: is_digit_def)

lemma take1_drop_eq: "take (Suc 0) (drop k cs) = [c] \<longleftrightarrow> k < length cs \<and> cs ! k = c"
proof (cases "k < length cs")
  case True
  then have "drop k cs = cs ! k # drop (Suc k) cs"
    by (simp add: Cons_nth_drop_Suc)
  with True show ?thesis by simp
next
  case False
  then show ?thesis by simp
qed

lemma digits_run_unique:
  assumes "list_all is_digit (take k cs)" "k' < k" "k' < length cs" "cs ! k' = CHR ''%''"
  shows False
proof -
  have "cs ! k' \<in> set (take k cs)"
    using assms(2,3) by (metis in_set_conv_nth length_take min_less_iff_conj nth_take)
  with assms(1) have "is_digit (cs ! k')" by (simp add: list_all_iff)
  with assms(4) percent_not_digit show False by simp
qed

lemma ex_le_Suc_drop:
  "\<not> R (Suc n) \<Longrightarrow> (\<exists>k. 1 \<le> k \<and> k \<le> Suc n \<and> R k) \<longleftrightarrow> (\<exists>k. 1 \<le> k \<and> k \<le> n \<and> R k)"
  by (auto simp: le_Suc_eq)

lemma digits_then_percent_Some:
  "digits_then_percent n cs = Some cap \<longleftrightarrow>
     (\<exists>k. 1 \<le> k \<and> k \<le> n \<and> (k < length cs \<and> list_all is_digit (take k cs) \<and> cs ! k = CHR ''%'' \<and> cap = take k cs))"
proof (induction n)
  case 0
  show ?case by simp
next
  case (Suc n)
  let ?R = "\<lambda>k. k < length cs \<and> list_all is_digit (take k cs) \<and> cs ! k = CHR ''%'' \<and> cap = take k cs"
  let ?hit = "Suc n \<le> length cs \<and> list_all is_digit (take (Suc n) cs) \<and> take 1 (drop (Suc n) cs) = ''%''"
  have hit_iff: "?hit \<longleftrightarrow> Suc n < length cs \<and> list_all is_digit (take (Suc n) cs) \<and> cs ! Suc n = CHR ''%''"
    using take1_drop_eq[of "Suc n" cs "CHR ''%''"] by auto
  show ?case
  proof (cases ?hit)
    case True
    then have hit: "Suc n < length cs" "cs ! Suc n = CHR ''%''" "list_all is_digit (take (Suc n) cs)"
      using hit_iff by simp_all
    have val: "digits_then_percent (Suc n) cs = Some (take (Suc n) cs)"
      using True by simp
    have uniq: "k = Suc n" if "k \<le> Suc n" "k < length cs" "cs ! k = CHR ''%''" for k
    proof (rule ccontr)
      assume "k \<noteq> Suc n"
      with that(1) have "k < Suc n" by simp
      from digits_run_unique[OF hit(3) this that(2,3)] show False .
    qed
    show ?thesis
    proof
      assume "digits_then_percent (Suc n) cs = Some cap"
      with val have "cap = take (Suc n) cs" by simp
      with hit show "\<exists>k. 1 \<le> k \<and> k \<le> Suc n \<and> ?R k" by (intro exI[of _ "Suc n"]) simp
    next
      assume "\<exists>k. 1 \<le> k \<and> k \<le> Suc n \<and> ?R k"
      then obtain k where k: "k \<le> Suc n" "k < length cs" "cs ! k = CHR ''%''" "cap = take k cs"
        by blast
      from uniq[OF k(1-3)] k(4) val show "digits_then_percent (Suc n) cs = Some cap" by simp
    qed
  next
    case False
    then have "digits_then_percent (Suc n) cs = digits_then_percent n cs"
      by (simp only: digits_then_percent.simps if_False)
    moreover have "\<not> ?R (Suc n)"
      using False hit_iff by blast
    ultimately show ?thesis
      using Suc.IH ex_le_Suc_drop[of ?R n] by simp
  qed
qed

lemma spec_percent_at_0:
  "spec_percent_at (c # cs) 0 k \<longleftrightarrow>
     is_space c \<and> 1 \<le> k \<and> k \<le> 3 \<and> k < length cs \<and> list_all is_digit (take k cs) \<and> cs ! k = CHR ''%''"
  unfolding spec_percent_at_def by auto

lemma match_here_Some:
  "match_here s = Some cap \<longleftrightarrow> (\<exists>k. spec_percent_at s 0 k \<and> cap = take k (drop 1 s))"
proof (cases s)
  case Nil
  then show ?thesis by (simp add: match_here_def spec_percent_at_def)
next
  case (Cons c cs)
  show ?thesis
  proof (cases "is_space c")
    case True
    then have "match_here s = digits_then_percent 3 cs"
      using Cons by (simp add: match_here_def)
    then have "match_here s = Some cap \<longleftrightarrow> digits_then_percent 3 cs = Some cap"
      by (simp only:)
    also have "\<dots> \<longleftrightarrow> (\<exists>k. 1 \<le> k \<and> k \<le> 3 \<and>
        (k < length cs \<and> list_all is_digit (take k cs) \<and> cs ! k = CHR ''%'' \<and> cap = take k cs))"
      by (rule digits_then_percent_Some)
    also have "\<dots> \<longleftrightarrow> (\<exists>k. spec_percent_at s 0 k \<and> cap = take k (drop 1 s))"
      unfolding Cons spec_percent_at_0 using True by simp
    finally show ?thesis .
  next
    case False
    then show ?thesis using Cons by (simp add: match_here_def spec_percent_at_0)
  qed
qed

lemma spec_percent_at_Cons: "spec_percent_at (c # cs) (Suc i) k \<longleftrightarrow> spec_percent_at cs i k"
  by (simp add: spec_percent_at_def)

lemma spec_percent_at_unique:
  assumes "spec_percent_at s i k" "spec_percent_at s i k'"
  shows "k = k'"
proof -
  have no_less: "\<not> b < a" if "spec_percent_at s i a" "spec_percent_at s i b" for a b
  proof
    assume "b < a"
    moreover have "list_all is_digit (take a (drop (Suc i) s))"
      using that(1) by (simp add: spec_percent_at_def)
    moreover have "b < length (drop (Suc i) s)"
      using that(2) unfolding spec_percent_at_def by (simp add: less_diff_conv)
    moreover have "drop (Suc i) s ! b = CHR ''%''"
      using that(2) unfolding spec_percent_at_def by (simp add: add.commute)
    ultimately show False
      using digits_run_unique by blast
  qed
  from no_less[OF assms] no_less[OF assms(2,1)] show ?thesis by simp
qed

lemma spec_percent_at_Nil: "\<not> spec_percent_at [] i k"
  by (simp add: spec_percent_at_def)

lemma match_here_None: "match_here s = None \<longleftrightarrow> (\<forall>k. \<not> spec_percent_at s 0 k)"
  using match_here_Some[of s] by (cases "match_here s") auto

lemma re_match_None: "re_match s = None \<longleftrightarrow> (\<forall>i k. \<not> spec_percent_at s i k)"
proof (induction s)
  case Nil
  show ?case by (simp add: spec_percent_at_Nil)
next
  case (Cons c cs)
  have "re_match (c # cs) = None \<longleftrightarrow> match_here (c # cs) = None \<and> re_match cs = None"
    by (simp split: option.splits)
  also have "\<dots> \<longleftrightarrow> (\<forall>k. \<not> spec_percent_at (c # cs) 0 k) \<and> (\<forall>i k. \<not> spec_percent_at (c # cs) (Suc i) k)"
    by (simp add: match_here_None Cons.IH spec_percent_at_Cons)
  also have "\<dots> \<longleftrightarrow> (\<forall>i k. \<not> spec_percent_at (c # cs) i k)"
  proof
    assume h: "(\<forall>k. \<not> spec_percent_at (c # cs) 0 k) \<and> (\<forall>i k. \<not> spec_percent_at (c # cs) (Suc i) k)"
    show "\<forall>i k. \<not> spec_percent_at (c # cs) i k"
    proof (intro allI)
      fix i k show "\<not> spec_percent_at (c # cs) i k"
        using h by (cases i) simp_all
    qed
  next
    assume "\<forall>i k. \<not> spec_percent_at (c # cs) i k"
    then show "(\<forall>k. \<not> spec_percent_at (c # cs) 0 k) \<and> (\<forall>i k. \<not> spec_percent_at (c # cs) (Suc i) k)"
      by simp
  qed
  finally show ?case .
qed

lemma re_match_first:
  "spec_percent_at s i k \<Longrightarrow> (\<forall>j<i. \<forall>k'. \<not> spec_percent_at s j k')
     \<Longrightarrow> re_match s = Some (take k (drop (Suc i) s))"
proof (induction s arbitrary: i)
  case Nil
  then show ?case by (simp add: spec_percent_at_Nil)
next
  case (Cons c cs)
  show ?case
  proof (cases i)
    case 0
    with Cons.prems(1) have "match_here (c # cs) = Some (take k (drop 1 (c # cs)))"
      using match_here_Some by blast
    with 0 show ?thesis by simp
  next
    case (Suc i')
    with Cons.prems(2) have "match_here (c # cs) = None"
      by (simp add: match_here_None)
    moreover have "re_match cs = Some (take k (drop (Suc i') cs))"
    proof (rule Cons.IH)
      show "spec_percent_at cs i' k"
        using Cons.prems(1) Suc by (simp add: spec_percent_at_Cons)
      show "\<forall>j<i'. \<forall>k'. \<not> spec_percent_at cs j k'"
        using Cons.prems(2) Suc spec_percent_at_Cons by (metis Suc_less_eq)
    qed
    ultimately show ?thesis using Suc by simp
  qed
qed

lemma re_match_skip: "\<not> is_space c \<Longrightarrow> re_match (c # cs) = re_match cs"
  by (simp add: match_here_def)

lemma re_match_skip_run: "list_all (\<lambda>c. \<not> is_space c) pre \<Longrightarrow> re_match (pre @ rest) = re_match rest"
  by (induction pre) (simp_all add: re_match_skip del: re_match.simps)

lemma digit_not_space: "is_digit c \<Longrightarrow> \<not> is_space c"
  by (auto simp: is_digit_def is_space_def)

lemma percent_not_space: "\<not> is_space CHR ''%''"
  by (simp add: is_space_def)

text \<open>
  C7. The parsed percentage is the capture of the first match of the pattern: when \<open>i\<close> is
  the first position at which a white-space character, one to three digits and a percent
  sign follow each other, the result is the integer those digits spell; when there is no
  such position the result is \<open>-1\<close>; and a percentage at the very start of the string, with
  no white space before it, is passed over.
\<close>

theorem parse_percent_as_int_spec:
  "(spec_percent_at s i k \<and> (\<forall>j<i. \<forall>k'. \<not> spec_percent_at s j k')
      \<longrightarrow> parse_percent_as_int s = toInt (take k (drop (Suc i) s))) \<and>
   ((\<forall>i k. \<not> spec_percent_at s i k) \<longrightarrow> parse_percent_as_int s = - 1) \<and>
   (list_all is_digit ds \<longrightarrow> parse_percent_as_int (ds @ ''%'' @ rest) = parse_percent_as_int rest)"
proof (intro conjI impI)
  assume "spec_percent_at s i k \<and> (\<forall>j<i. \<forall>k'. \<not> spec_percent_at s j k')"
  then have "re_match s = Some (take k (drop (Suc i) s))"
    using re_match_first by blast
  then show "parse_percent_as_int s = toInt (take k (drop (Suc i) s))"
    by (simp add: parse_percent_as_int_def)
next
  assume "\<forall>i k. \<not> spec_percent_at s i k"
  then have "re_match s = None" by (simp add: re_match_None)
  then show "parse_percent_as_int s = - 1"
    by (simp add: parse_percent_as_int_def)
next
  assume "list_all is_digit ds"
  then have "list_all (\<lambda>c. \<not> is_space c) (ds @ ''%'')"
    by (auto simp: list_all_iff digit_not_space percent_not_space)
  then have "re_match ((ds @ ''%'') @ rest) = re_match rest"
    by (rule re_match_skip_run)
  then show "parse_percent_as_int (ds @ ''%'' @ rest) = parse_percent_as_int rest"
    by (simp add: parse_percent_as_int_def)
qed

lemma example_progress_match: "spec_percent_at ''rootfs: 45% (1.2MB/s)'' 7 2"
  by (simp add: spec_percent_at_def is_space_def is_digit_def)

lemma example_progress_first: "\<forall>j<7. \<forall>k'. \<not> spec_percent_at ''rootfs: 45% (1.2MB/s)'' j k'"
proof -
  have sp: "is_space c \<longleftrightarrow>
      c = CHR '' '' \<or> c = CHR 0x09 \<or> c = CHR 0x0A \<or> c = CHR 0x0B \<or> c = CHR 0x0C \<or> c = CHR 0x0D" for c
    by (simp add: is_space_def)
  have "\<not> is_space (''rootfs: 45% (1.2MB/s)'' ! j)" if "j < 7" for j
  proof -
    from that have "j \<in> {0, 1, 2, 3, 4, 5, 6}" by auto
    then show ?thesis by (auto simp: sp)
  qed
  then show ?thesis by (simp add: spec_percent_at_def)
qed

lemma example_no_match: "\<forall>i k. \<not> spec_percent_at ''x'' i k"
  by (simp add: spec_percent_at_def)

lemma example_leading_digits: "list_all is_digit ''50''"
  by (simp add: is_digit_def)

lemma example_rest_no_match: "parse_percent_as_int '' of 9'' = - 1"
  by code_simp

theorem parse_percent_as_int_spec_witness:
  "parse_percent_as_int ''rootfs: 45% (1.2MB/s)'' = 45 \<and> parse_percent_as_int ''x'' = - 1 \<and>
   parse_percent_as_int ''50% of 9'' = - 1"
  using parse_percent_as_int_spec[of "''rootfs: 45% (1.2MB/s)''" 7 2 "[]" "[]"]
    parse_percent_as_int_spec[of "''x''" 0 0 "''50''" "'' of 9''"]
    example_progress_match example_progress_first example_no_match example_leading_digits
    example_rest_no_match
  by (simp add: toInt_def)

subsection \<open>The remote map and \<^verbatim>\<open>info_for\<close>\<close>

lemma find_append_case:
  "find Q (xs @ ys) = (case find Q xs of None \<Rightarrow> find Q ys | Some x \<Rightarrow> Some x)"
  by (induction xs) simp_all

lemma add_remotes_fold:
  "foldl (\<lambda>m remote. if ok remote then m(remote \<mapsto> h) else m) m rs r =
     (if ok r \<and> r \<in> set rs then Some h else m r)"
  by (induction rs arbitrary: m) auto

lemma add_remotes_apply:
  "add_remotes P m h r =
     (if is_remote_supported P r \<and> r \<in> set (supported_remotes h) then Some h else m r)"
  unfolding add_remotes_def by (rule add_remotes_fold)

lemma remote_map_fold:
  "foldl (add_remotes P) m hosts r =
     (case (if is_remote_supported P r then find (\<lambda>h. r \<in> set (supported_remotes h)) (rev hosts) else None) of
        Some h \<Rightarrow> Some h
      | None \<Rightarrow> m r)"
proof (induction hosts arbitrary: m)
  case Nil
  show ?case by simp
next
  case (Cons h hs)
  have "foldl (add_remotes P) m (h # hs) r = foldl (add_remotes P) (add_remotes P m h) hs r"
    by simp
  also have "\<dots> =
     (case (if is_remote_supported P r then find (\<lambda>h. r \<in> set (supported_remotes h)) (rev hs) else None) of
        Some h' \<Rightarrow> Some h'
      | None \<Rightarrow> add_remotes P m h r)"
    by (rule Cons.IH)
  also have "\<dots> =
     (case (if is_remote_supported P r then find (\<lambda>h. r \<in> set (supported_remotes h)) (rev (h # hs)) else None) of
        Some h' \<Rightarrow> Some h'
      | None \<Rightarrow> m r)"
    unfolding add_remotes_apply by (simp add: find_append_case split: option.splits)
  finally show ?case .
qed

lemma remote_image_host_map_new:
  "remote_image_host_map (new_LXDVMImageVault P hosts days url) r =
     (if is_remote_supported P r then find (\<lambda>h. r \<in> set (supported_remotes h)) (rev hosts) else None)"
  by (simp add: new_LXDVMImageVault_def remote_map_fold split: option.splits)

lemma first_info_None: "first_info hosts q = None \<longleftrightarrow> (\<forall>h \<in> set hosts. host_info_for h q = None)"
  by (induction hosts) (auto split: option.splits)

lemma first_info_first:
  "k < length hosts \<Longrightarrow> host_info_for (hosts ! k) q = Some info
     \<Longrightarrow> (\<forall>j<k. host_info_for (hosts ! j) q = None) \<Longrightarrow> first_info hosts q = Some info"
proof (induction hosts arbitrary: k)
  case Nil
  then show ?case by simp
next
  case (Cons h hs)
  show ?case
  proof (cases k)
    case 0
    with Cons.prems show ?thesis by simp
  next
    case (Suc k')
    with Cons.prems(3) have "host_info_for h q = None" by auto
    moreover have "first_info hs q = Some info"
    proof (rule Cons.IH[of k'])
      show "k' < length hs" using Cons.prems(1) Suc by simp
      show "host_info_for (hs ! k') q = Some info" using Cons.prems(2) Suc by simp
      show "\<forall>j<k'. host_info_for (hs ! j) q = None"
        using Cons.prems(3) Suc by (metis Suc_less_eq nth_Cons_Suc)
    qed
    ultimately show ?thesis by simp
  qed
qed

lemma image_hosts_new: "image_hosts (new_LXDVMImageVault P hosts days url) = hosts"
  by (simp add: new_LXDVMImageVault_def)

text \<open>
  C2. The map of remotes built at construction sends a remote name to the last registered
  host that lists it, provided the platform supports the name, and to nothing otherwise.
  With a remote name in the query, \<^verbatim>\<open>info_for\<close> fails with the unknown-remote error when the
  map has no entry, and otherwise asks the host of the entry. Without one, it asks the
  hosts in registration order and returns the first result that is not empty. When no host
  yields a result it fails with the no-matching-image error.
\<close>

theorem info_for_resolution:
  assumes v: "v = new_LXDVMImageVault P hosts days url"
  shows
  "(remote_image_host_map v r =
      (if is_remote_supported P r then find (\<lambda>h. r \<in> set (supported_remotes h)) (rev hosts) else None)) \<and>
   (remote_name q \<noteq> [] \<and> remote_image_host_map v (remote_name q) = None
      \<longrightarrow> info_for v q = Inl (unknown_remote (remote_name q))) \<and>
   (remote_name q \<noteq> [] \<and> remote_image_host_map v (remote_name q) = Some h
      \<longrightarrow> info_for v q =
            (case host_info_for h q of Some info \<Rightarrow> Inr info | None \<Rightarrow> Inl (no_matching_image (release q)))) \<and>
   (remote_name q = [] \<and> k < length hosts \<and> host_info_for (hosts ! k) q = Some info \<and>
      (\<forall>j<k. host_info_for (hosts ! j) q = None)
      \<longrightarrow> info_for v q = Inr info) \<and>
   (remote_name q = [] \<and> (\<forall>h \<in> set hosts. host_info_for h q = None)
      \<longrightarrow> info_for v q = Inl (no_matching_image (release q)))"
proof (intro conjI impI)
  show "remote_image_host_map v r =
      (if is_remote_supported P r then find (\<lambda>h. r \<in> set (supported_remotes h)) (rev hosts) else None)"
    unfolding v by (rule remote_image_host_map_new)
next
  assume "remote_name q \<noteq> [] \<and> remote_image_host_map v (remote_name q) = None"
  then show "info_for v q = Inl (unknown_remote (remote_name q))"
    by (simp add: info_for_def)
next
  assume "remote_name q \<noteq> [] \<and> remote_image_host_map v (remote_name q) = Some h"
  then show "info_for v q =
      (case host_info_for h q of Some info \<Rightarrow> Inr info | None \<Rightarrow> Inl (no_matching_image (release q)))"
    by (simp add: info_for_def)
next
  assume a: "remote_name q = [] \<and> k < length hosts \<and> host_info_for (hosts ! k) q = Some info \<and>
      (\<forall>j<k. host_info_for (hosts ! j) q = None)"
  then have "first_info hosts q = Some info"
    using first_info_first by blast
  with a show "info_for v q = Inr info"
    by (simp add: info_for_def v image_hosts_new)
next
  assume a: "remote_name q = [] \<and> (\<forall>h \<in> set hosts. host_info_for h q = None)"
  then have "first_info hosts q = None"
    by (simp add: first_info_None)
  with a show "info_for v q = Inl (no_matching_image (release q))"
    by (simp add: info_for_def v image_hosts_new)
qed

subsection \<open>Requests, monitor calls and the polling loop\<close>

lemma lxd_request_eq:
  "transport P (world s) method url body = (r, w') \<Longrightarrow>
     lxd_request P method url body s =
       (reply_result r, \<lparr>world = w', trace = trace s @ [Request method url body]\<rparr>)"
  by (simp add: lxd_request_def)

lemma lxd_request_trace:
  "lxd_request P method url body s = (res, s') \<Longrightarrow> trace s' = trace s @ [Request method url body]"
  by (auto simp: lxd_request_def split: prod.splits)

lemma call_monitor_trace:
  "call_monitor monitor t p s = (b, s') \<Longrightarrow> trace s' = trace s @ [Monitor t p b]"
  by (auto simp: call_monitor_def split: prod.splits)

lemma reply_result_simps:
  "reply_result (Reply j) = Inr j"
  "reply_result NotFound = Inl LXDNotFoundException"
  "reply_result (Failure m) = Inl (LXDRuntimeError m)"
  by (simp_all add: reply_result_def)

lemma reply_result_not_aborted: "reply_result r \<noteq> Inl (AbortedDownloadException m)"
  by (cases r) (simp_all add: reply_result_def)

lemma lxd_request_not_aborted:
  "lxd_request P method url body s = (Inl e, s') \<Longrightarrow> e \<noteq> AbortedDownloadException m"
  by (auto simp: lxd_request_def reply_result_not_aborted split: prod.splits)

lemma poll_loop_in_progress:
  "in_progress_poll P url mon s = Some s1 \<Longrightarrow>
     poll_loop (Suc n) P url mon tc s = poll_loop n P url mon tc s1"
  unfolding in_progress_poll_def poll_loop.simps
  by (auto simp: Let_def split: prod.splits sum.splits if_splits)

lemma poll_loop_polls:
  "polls k P url mon s = Some s' \<Longrightarrow> poll_loop (k + n) P url mon tc s = poll_loop n P url mon tc s'"
proof (induction k arbitrary: s)
  case 0
  then show ?case by simp
next
  case (Suc k)
  from Suc.prems obtain s1 where s1: "in_progress_poll P url mon s = Some s1" "polls k P url mon s1 = Some s'"
    by (auto split: option.splits)
  have "poll_loop (Suc k + n) P url mon tc s = poll_loop (k + n) P url mon tc s1"
    using poll_loop_in_progress[OF s1(1)] by simp
  with Suc.IH[OF s1(2)] show ?case by simp
qed

lemma to_int_error_code: "to_int j (- 1) \<noteq> 0 \<longleftrightarrow> j \<noteq> JNum 0"
  by (cases j) auto

lemma poll_loop_error_code:
  assumes "transport P (world s) ''GET'' url None = (Reply task_reply, w')"
    and "obj_get task_reply ''error_code'' \<noteq> JNum 0"
  shows "poll_loop (Suc n) P url mon tc s =
           (Some (Inr ()), \<lparr>world = w', trace = trace s @ [Request ''GET'' url None]\<rparr>)"
  using assms(2) unfolding poll_loop.simps lxd_request_eq[OF assms(1)]
  by (simp add: reply_result_simps to_int_error_code)

lemma poll_loop_abort:
  assumes "lxd_request P ''GET'' url None s = (Inr task_reply, s1)"
    and "to_int (obj_get task_reply ''error_code'') (- 1) = 0"
    and "to_int (obj_get (to_object (obj_get task_reply ''metadata'')) ''status_code'') (- 1) \<noteq> 200"
    and "call_monitor mon LaunchProgress_IMAGE
           (parse_percent_as_int
              (to_string (obj_get (to_object (obj_get (to_object (obj_get task_reply ''metadata'')) ''metadata''))
                 ''download_progress''))) s1 = (False, s2)"
    and "transport P (world s2) ''DELETE'' url None = (r, w3)"
  shows "poll_loop (Suc n) P url mon tc s =
           ((case r of
               Reply j \<Rightarrow> Some (Inl (AbortedDownloadException ''Download aborted''))
             | NotFound \<Rightarrow> Some (Inr ())
             | Failure m \<Rightarrow> Some (Inl (LXDRuntimeError m))),
            \<lparr>world = w3, trace = trace s2 @ [Request ''DELETE'' url None]\<rparr>)"
  unfolding poll_loop.simps assms(1) using assms(2,3,4)
  by (cases r) (simp_all add: Let_def lxd_request_eq[OF assms(5)] reply_result_simps)

lemma abort_trace:
  "call_monitor mon t p s1 = (b, s2) \<Longrightarrow> lxd_request P method url body s2 = (res, s3) \<Longrightarrow>
     trace s3 = trace s1 @ [Monitor t p b, Request method url body]"
  by (simp add: lxd_request_trace call_monitor_trace)

lemma poll_loop_aborted_only:
  "poll_loop n P url mon tc s = (Some (Inl (AbortedDownloadException m)), s') \<Longrightarrow>
     m = ''Download aborted'' \<and>
     (\<exists>pre p. trace s' = pre @ [Monitor LaunchProgress_IMAGE p False, Request ''DELETE'' url None])"
proof (induction n arbitrary: s)
  case 0
  then show ?case by simp
next
  case (Suc n)
  show ?case
  proof (cases "in_progress_poll P url mon s")
    case (Some s1)
    with Suc show ?thesis
      using poll_loop_in_progress[OF Some] by simp
  next
    case None
    with Suc.prems show ?thesis
      unfolding in_progress_poll_def poll_loop.simps
      by (auto simp: Let_def dest: abort_trace lxd_request_not_aborted
               split: prod.splits sum.splits if_splits)
  qed
qed

subsection \<open>\<^verbatim>\<open>fetch_image\<close>\<close>

lemma existing_instance_lookup_state:
  "snd (existing_instance_lookup P v q s) =
     \<lparr>world = snd (transport P (world s) ''GET'' (existing_instance_url v (name q)) None),
      trace = trace s @ [Request ''GET'' (existing_instance_url v (name q)) None]\<rparr>"
  by (simp add: existing_instance_lookup_def lxd_request_def Let_def split: prod.splits sum.splits)

lemma fetch_image_after_lookup:
  "existing_instance_lookup P v q s = (outcome, s1) \<Longrightarrow>
     fetch_image n P v q mon s = fetch_resolved n P v q mon s1"
  by (simp add: fetch_image_def)

lemma fetch_resolved_found:
  assumes "query_type q = Alias \<or> is_image_url_supported P"
    and "info_for v q = Inr info"
    and "transport P (world s1) ''GET'' (image_id_url v (info_id info)) None = (Reply j, w2)"
  shows "fetch_resolved n P v q mon s1 =
           (Some (Inr (source_image_of (info_id info) info)),
            \<lparr>world = w2, trace = trace s1 @ [Request ''GET'' (image_id_url v (info_id info)) None]\<rparr>)"
  using assms(1,2) unfolding fetch_resolved_def
  by (auto simp: Let_def lxd_request_eq[OF assms(3)] reply_result_simps)

lemma fetch_resolved_pull:
  assumes "query_type q = Alias \<or> is_image_url_supported P"
    and "info_for v q = Inr info"
    and "transport P (world s1) ''GET'' (image_id_url v (info_id info)) None = (NotFound, w2)"
    and "lxd_request P ''POST'' (images_url v)
           (Some [(''source'', JObject (pull_source_object q info))])
           \<lparr>world = w2, trace = trace s1 @ [Request ''GET'' (image_id_url v (info_id info)) None]\<rparr>
         = (res, s3)"
  shows "fetch_resolved n P v q mon s1 =
           (case res of
              Inl e \<Rightarrow> (Some (Inl e), s3)
            | Inr json_reply \<Rightarrow>
                (case poll_download_operation n P v json_reply mon no_task_complete s3 of
                   (None, s4) \<Rightarrow> (None, s4)
                 | (Some (Inl e), s4) \<Rightarrow> (Some (Inl e), s4)
                 | (Some (Inr u), s4) \<Rightarrow> (Some (Inr (source_image_of (info_id info) info)), s4)))"
  using assms(1,2) unfolding fetch_resolved_def
  by (auto simp: Let_def lxd_request_eq[OF assms(3)] reply_result_simps assms(4) split: sum.splits)

lemma poll_loop_trace_prefix:
  assumes tc: "\<And>md st. prefix (trace st) (trace (tc md st))"
  shows "prefix (trace s) (trace (snd (poll_loop n P url mon tc s)))"
proof (induction n arbitrary: s)
  case 0
  show ?case by simp
next
  case (Suc n)
  obtain res1 s1 where r1: "lxd_request P ''GET'' url None s = (res1, s1)"
    by (cases "lxd_request P ''GET'' url None s")
  have p1: "prefix (trace s) (trace s1)"
    using lxd_request_trace[OF r1] by simp
  show ?case
  proof (cases res1)
    case (Inl e)
    then show ?thesis using r1 p1 by simp
  next
    case (Inr task_reply)
    let ?md = "to_object (obj_get task_reply ''metadata'')"
    let ?p = "parse_percent_as_int
                (to_string (obj_get (to_object (obj_get ?md ''metadata'')) ''download_progress''))"
    obtain b s2 where m: "call_monitor mon LaunchProgress_IMAGE ?p s1 = (b, s2)"
      by (cases "call_monitor mon LaunchProgress_IMAGE ?p s1")
    have p2: "prefix (trace s) (trace s2)"
      using call_monitor_trace[OF m] p1 by (simp add: prefix_order.order_trans)
    obtain res3 s3 where r3: "lxd_request P ''DELETE'' url None s2 = (res3, s3)"
      by (cases "lxd_request P ''DELETE'' url None s2")
    have p3: "prefix (trace s) (trace s3)"
      using lxd_request_trace[OF r3] p2 by (simp add: prefix_order.order_trans)
    have p4: "prefix (trace s) (trace (tc ?md s1))"
      using p1 tc prefix_order.order_trans by blast
    have p5: "prefix (trace s) (trace (snd (poll_loop n P url mon tc s2)))"
      using Suc.IH[of s2] p2 prefix_order.order_trans by blast
    show ?thesis
      unfolding poll_loop.simps r1 Inr
      using p1 p3 p4 p5 by (simp add: Let_def m r3 split: sum.splits)
  qed
qed

lemma poll_download_operation_trace_prefix:
  assumes tc: "\<And>md st. prefix (trace st) (trace (tc md st))"
  shows "prefix (trace s) (trace (snd (poll_download_operation n P v j mon tc s)))"
  unfolding poll_download_operation_def using poll_loop_trace_prefix[of tc, OF tc] by simp

lemma fetch_resolved_pull_trace:
  assumes "query_type q = Alias \<or> is_image_url_supported P"
    and "info_for v q = Inr info"
    and "transport P (world s1) ''GET'' (image_id_url v (info_id info)) None = (NotFound, w2)"
  shows "prefix (trace s1 @ [Request ''GET'' (image_id_url v (info_id info)) None,
                            Request ''POST'' (images_url v)
                              (Some [(''source'', JObject (pull_source_object q info))])])
           (trace (snd (fetch_resolved n P v q mon s1)))"
proof -
  let ?s2 = "\<lparr>world = w2, trace = trace s1 @ [Request ''GET'' (image_id_url v (info_id info)) None]\<rparr>"
  obtain res s3 where post: "lxd_request P ''POST'' (images_url v)
           (Some [(''source'', JObject (pull_source_object q info))]) ?s2 = (res, s3)"
    by (cases "lxd_request P ''POST'' (images_url v)
           (Some [(''source'', JObject (pull_source_object q info))]) ?s2")
  have t3: "trace s3 = trace s1 @ [Request ''GET'' (image_id_url v (info_id info)) None,
                            Request ''POST'' (images_url v)
                              (Some [(''source'', JObject (pull_source_object q info))])]"
    using lxd_request_trace[OF post] by simp
  show ?thesis
  proof (cases res)
    case (Inl e)
    then show ?thesis
      unfolding fetch_resolved_pull[OF assms post] by (simp add: t3)
  next
    case (Inr j)
    have "prefix (trace s3) (trace (snd (poll_download_operation n P v j mon no_task_complete s3)))"
      by (rule poll_download_operation_trace_prefix) (simp add: no_task_complete_def)
    then show ?thesis
      unfolding fetch_resolved_pull[OF assms post] Inr t3[symmetric]
      by (auto split: prod.splits option.splits sum.splits)
  qed
qed

lemma map_of_obj_insert: "map_of (obj_insert k x obj) = (map_of obj)(k \<mapsto> x)"
  by (simp add: obj_insert_def update_conv')

lemma pull_source_object_map:
  "map_of (pull_source_object q info) =
     (if prefix (release q) (info_id info)
      then [''type'' \<mapsto> JString ''image'', ''mode'' \<mapsto> JString ''pull'',
            ''server'' \<mapsto> JString (info_stream_location info),
            ''protocol'' \<mapsto> JString ''simplestreams'', ''image_type'' \<mapsto> JString ''virtual-machine'',
            ''fingerprint'' \<mapsto> JString (info_id info)]
      else [''type'' \<mapsto> JString ''image'', ''mode'' \<mapsto> JString ''pull'',
            ''server'' \<mapsto> JString (info_stream_location info),
            ''protocol'' \<mapsto> JString ''simplestreams'', ''image_type'' \<mapsto> JString ''virtual-machine'',
            ''alias'' \<mapsto> JString (release q)])"
  by (simp add: pull_source_object_def Let_def map_of_obj_insert)

lemma pull_source_object_either:
  "obj_contains (pull_source_object q info) ''fingerprint'' \<noteq> obj_contains (pull_source_object q info) ''alias''"
  by (simp add: obj_contains_def pull_source_object_map)

lemma poll_download_operation_task:
  assumes "obj_get (to_object (obj_get json_reply ''metadata'')) ''class'' = JString ''task''"
    and "to_int (obj_get json_reply ''status_code'') (- 1) = 100"
  shows "poll_download_operation n P v json_reply mon tc s =
           poll_loop n P (operation_url v (to_string (obj_get (to_object (obj_get json_reply ''metadata'')) ''id'')))
             mon tc s"
  using assms by (simp add: poll_download_operation_def)

lemma update_loop_tracked:
  assumes "obj_contains (to_object img) ''update_source''"
    and "lxd_request P ''POST'' (refresh_url v (to_string (obj_get (to_object img) ''fingerprint''))) None
           (log Level_info category (checking_message (image_release (to_object img))) s) = (res, s1)"
  shows "update_loop n P v mon (img # images) s =
           (case res of
              Inl e \<Rightarrow> (Some (Inl e), s1)
            | Inr json_reply \<Rightarrow>
                (case poll_download_operation n P v json_reply mon
                        (refresh_task_complete (image_release (to_object img))) s1 of
                   (Some (Inr u), s2) \<Rightarrow> update_loop n P v mon images s2
                 | (Some (Inl e), s2) \<Rightarrow> (Some (Inl e), s2)
                 | (None, s2) \<Rightarrow> (None, s2)))"
  using assms(1) by (simp add: Let_def assms(2) split: sum.splits)

text \<open>
  C4. After any number \<open>k\<close> of polls that went round, a poll response that carries an error
  code other than 0 ends \<^verbatim>\<open>poll_download_operation\<close> with a normal return, and nothing is
  requested after that poll. The callers see no failure: \<^verbatim>\<open>fetch_image\<close> returns the image,
  and the loop of \<^verbatim>\<open>update_images\<close> goes on to the next image.
\<close>

theorem poll_error_code_returns_normally:
  assumes task: "obj_get (to_object (obj_get json_reply ''metadata'')) ''class'' = JString ''task''"
      "to_int (obj_get json_reply ''status_code'') (- 1) = 100"
    and url: "url = operation_url v (to_string (obj_get (to_object (obj_get json_reply ''metadata'')) ''id''))"
    and polled: "polls k P url mon s = Some s0"
    and reply: "transport P (world s0) ''GET'' url None = (Reply task_reply, w')"
    and code: "obj_get task_reply ''error_code'' \<noteq> JNum 0"
  shows
  "poll_download_operation (k + Suc n) P v json_reply mon tc s =
     (Some (Inr ()), \<lparr>world = w', trace = trace s0 @ [Request ''GET'' url None]\<rparr>) \<and>
   (existing_instance_lookup P v q sa = (outcome, s1) \<and>
    (query_type q = Alias \<or> is_image_url_supported P) \<and> info_for v q = Inr info \<and>
    transport P (world s1) ''GET'' (image_id_url v (info_id info)) None = (NotFound, w2) \<and>
    lxd_request P ''POST'' (images_url v) (Some [(''source'', JObject (pull_source_object q info))])
      \<lparr>world = w2, trace = trace s1 @ [Request ''GET'' (image_id_url v (info_id info)) None]\<rparr>
      = (Inr json_reply, s)
    \<longrightarrow> fetch_image (k + Suc n) P v q mon sa =
          (Some (Inr (source_image_of (info_id info) info)),
           \<lparr>world = w', trace = trace s0 @ [Request ''GET'' url None]\<rparr>)) \<and>
   (obj_contains (to_object img) ''update_source'' \<and>
    lxd_request P ''POST'' (refresh_url v (to_string (obj_get (to_object img) ''fingerprint''))) None
      (log Level_info category (checking_message (image_release (to_object img))) sb) = (Inr json_reply, s)
    \<longrightarrow> update_loop (k + Suc n) P v mon (img # images) sb =
          update_loop (k + Suc n) P v mon images \<lparr>world = w', trace = trace s0 @ [Request ''GET'' url None]\<rparr>)"
proof -
  have loop: "poll_loop (k + Suc n) P url mon tc' s =
      (Some (Inr ()), \<lparr>world = w', trace = trace s0 @ [Request ''GET'' url None]\<rparr>)" for tc' :: "'a TaskCompleteAction"
    unfolding poll_loop_polls[OF polled] by (rule poll_loop_error_code[OF reply code])
  have op: "poll_download_operation (k + Suc n) P v json_reply mon tc' s =
      (Some (Inr ()), \<lparr>world = w', trace = trace s0 @ [Request ''GET'' url None]\<rparr>)" for tc' :: "'a TaskCompleteAction"
    unfolding poll_download_operation_task[OF task] url[symmetric] by (rule loop)
  show ?thesis
  proof (intro conjI impI)
    show "poll_download_operation (k + Suc n) P v json_reply mon tc s =
      (Some (Inr ()), \<lparr>world = w', trace = trace s0 @ [Request ''GET'' url None]\<rparr>)"
      by (rule op)
  next
    assume a: "existing_instance_lookup P v q sa = (outcome, s1) \<and>
      (query_type q = Alias \<or> is_image_url_supported P) \<and> info_for v q = Inr info \<and>
      transport P (world s1) ''GET'' (image_id_url v (info_id info)) None = (NotFound, w2) \<and>
      lxd_request P ''POST'' (images_url v) (Some [(''source'', JObject (pull_source_object q info))])
        \<lparr>world = w2, trace = trace s1 @ [Request ''GET'' (image_id_url v (info_id info)) None]\<rparr>
        = (Inr json_reply, s)"
    then have "fetch_image (k + Suc n) P v q mon sa = fetch_resolved (k + Suc n) P v q mon s1"
      using fetch_image_after_lookup by blast
    also have "\<dots> = (Some (Inr (source_image_of (info_id info) info)),
           \<lparr>world = w', trace = trace s0 @ [Request ''GET'' url None]\<rparr>)"
      using a fetch_resolved_pull[of q P v info s1 w2 "Inr json_reply" s "k + Suc n" mon]
        op[of no_task_complete]
      by simp
    finally show "fetch_image (k + Suc n) P v q mon sa =
          (Some (Inr (source_image_of (info_id info) info)),
           \<lparr>world = w', trace = trace s0 @ [Request ''GET'' url None]\<rparr>)" .
  next
    assume a: "obj_contains (to_object img) ''update_source'' \<and>
      lxd_request P ''POST'' (refresh_url v (to_string (obj_get (to_object img) ''fingerprint''))) None
        (log Level_info category (checking_message (image_release (to_object img))) sb) = (Inr json_reply, s)"
    show "update_loop (k + Suc n) P v mon (img # images) sb =
          update_loop (k + Suc n) P v mon images \<lparr>world = w', trace = trace s0 @ [Request ''GET'' url None]\<rparr>"
      using update_loop_tracked[OF conjunct1[OF a] conjunct2[OF a], of "k + Suc n" mon images]
        op[of "refresh_task_complete (image_release (to_object img))"]
      by (simp del: update_loop.simps)
  qed
qed

text \<open>
  C3 (as amended). After any number \<open>k\<close> of polls that went round, when the monitor asks to
  stop, the loop issues \<^verbatim>\<open>DELETE\<close> on the operation as its last request. When the daemon
  accepts the \<^verbatim>\<open>DELETE\<close> the call fails with \<^verbatim>\<open>AbortedDownloadException\<close>; when the
  \<^verbatim>\<open>DELETE\<close> fails with a transport error, that error is what the call fails with.
  \<^verbatim>\<open>AbortedDownloadException\<close> leaves the loop on this path only: the trace then ends with
  the monitor's refusal and the \<^verbatim>\<open>DELETE\<close>.
\<close>

theorem poll_abort_cancels:
  assumes polled: "polls k P url mon s = Some s0"
    and reply: "lxd_request P ''GET'' url None s0 = (Inr task_reply, s1)"
    and code: "to_int (obj_get task_reply ''error_code'') (- 1) = 0"
    and status: "to_int (obj_get (to_object (obj_get task_reply ''metadata'')) ''status_code'') (- 1) \<noteq> 200"
    and abort: "call_monitor mon LaunchProgress_IMAGE
           (parse_percent_as_int
              (to_string (obj_get (to_object (obj_get (to_object (obj_get task_reply ''metadata'')) ''metadata''))
                 ''download_progress''))) s1 = (False, s2)"
    and del: "transport P (world s2) ''DELETE'' url None = (r, w3)"
  shows
  "(\<forall>j. r = Reply j \<longrightarrow>
      poll_loop (k + Suc n) P url mon tc s =
        (Some (Inl (AbortedDownloadException ''Download aborted'')),
         \<lparr>world = w3, trace = trace s2 @ [Request ''DELETE'' url None]\<rparr>)) \<and>
   (\<forall>m. r = Failure m \<longrightarrow>
      poll_loop (k + Suc n) P url mon tc s =
        (Some (Inl (LXDRuntimeError m)),
         \<lparr>world = w3, trace = trace s2 @ [Request ''DELETE'' url None]\<rparr>)) \<and>
   (\<forall>n' sa sb m. poll_loop n' P url mon tc sa = (Some (Inl (AbortedDownloadException m)), sb) \<longrightarrow>
      m = ''Download aborted'' \<and>
      (\<exists>pre p. trace sb = pre @ [Monitor LaunchProgress_IMAGE p False, Request ''DELETE'' url None]))"
proof -
  have "poll_loop (k + Suc n) P url mon tc s =
           ((case r of
               Reply j \<Rightarrow> Some (Inl (AbortedDownloadException ''Download aborted''))
             | NotFound \<Rightarrow> Some (Inr ())
             | Failure m \<Rightarrow> Some (Inl (LXDRuntimeError m))),
            \<lparr>world = w3, trace = trace s2 @ [Request ''DELETE'' url None]\<rparr>)"
    unfolding poll_loop_polls[OF polled] by (rule poll_loop_abort[OF reply code status abort del])
  then show ?thesis
    using poll_loop_aborted_only[of _ P url mon tc] by auto
qed

text \<open>
  C5. When the probe \<^verbatim>\<open>GET /images/{id}\<close> reports not-found, the next request of
  \<^verbatim>\<open>fetch_image\<close> is \<^verbatim>\<open>POST /images\<close> with the body \<open>{source: ...}\<close>, whose source object
  holds exactly type, mode, server, protocol and image type, and the fingerprint (the id)
  when the id starts with the requested release, the alias (the release) otherwise, never
  both.
\<close>

theorem fetch_image_pull_request:
  assumes "existing_instance_lookup P v q s = (outcome, s1)"
    and "query_type q = Alias \<or> is_image_url_supported P"
    and "info_for v q = Inr info"
    and "transport P (world s1) ''GET'' (image_id_url v (info_id info)) None = (NotFound, w2)"
  shows
  "prefix (trace s1 @ [Request ''GET'' (image_id_url v (info_id info)) None,
                      Request ''POST'' (images_url v)
                        (Some [(''source'', JObject (pull_source_object q info))])])
     (trace (snd (fetch_image n P v q mon s))) \<and>
   map_of (pull_source_object q info) =
     (if prefix (release q) (info_id info)
      then [''type'' \<mapsto> JString ''image'', ''mode'' \<mapsto> JString ''pull'',
            ''server'' \<mapsto> JString (info_stream_location info),
            ''protocol'' \<mapsto> JString ''simplestreams'', ''image_type'' \<mapsto> JString ''virtual-machine'',
            ''fingerprint'' \<mapsto> JString (info_id info)]
      else [''type'' \<mapsto> JString ''image'', ''mode'' \<mapsto> JString ''pull'',
            ''server'' \<mapsto> JString (info_stream_location info),
            ''protocol'' \<mapsto> JString ''simplestreams'', ''image_type'' \<mapsto> JString ''virtual-machine'',
            ''alias'' \<mapsto> JString (release q)]) \<and>
   obj_contains (pull_source_object q info) ''fingerprint'' \<noteq> obj_contains (pull_source_object q info) ''alias''"
  unfolding fetch_image_after_lookup[OF assms(1)]
  using fetch_resolved_pull_trace[OF assms(2,3,4)] pull_source_object_map pull_source_object_either
  by blast

lemma source_image_of_fields:
  "source_image_of (info_id info) info =
     \<lparr>image_path = [], kernel_path = [], initrd_path = [],
      vm_id = info_id info, stream_location = info_stream_location info,
      original_release = release_title info,
      release_date = version info, aliases = info_aliases info\<rparr>"
  by (simp add: source_image_of_def)

lemma fetch_resolved_result:
  "fetch_resolved n P v q mon s1 = (Some (Inr img), s') \<Longrightarrow>
     \<exists>info. info_for v q = Inr info \<and> img = source_image_of (info_id info) info"
  unfolding fetch_resolved_def
  by (auto simp: Let_def split: if_splits sum.splits prod.splits option.splits)

lemma fetch_image_source_image:
  "fetch_image n P v q mon s = (Some (Inr img), s') \<Longrightarrow>
     \<exists>info. info_for v q = Inr info \<and> img = source_image_of (info_id info) info"
  unfolding fetch_image_def
  by (auto split: prod.splits dest: fetch_resolved_result)

text \<open>
  C10. An image returned by \<^verbatim>\<open>fetch_image\<close> has empty image, kernel and initrd paths, and
  its other fields are those of the \<^verbatim>\<open>VMImageInfo\<close> that \<^verbatim>\<open>info_for\<close> resolves the query to;
  what the first block recovered from an existing instance plays no part.
\<close>

theorem fetch_image_result:
  "fetch_image n P v q mon s = (Some (Inr img), s') \<Longrightarrow>
     \<exists>info. info_for v q = Inr info \<and>
       img = \<lparr>image_path = [], kernel_path = [], initrd_path = [],
               vm_id = info_id info, stream_location = info_stream_location info,
               original_release = release_title info,
               release_date = version info, aliases = info_aliases info\<rparr>"
  unfolding source_image_of_fields[symmetric]
  by (rule fetch_image_source_image)

text \<open>
  C1 (as amended). When the probe \<^verbatim>\<open>GET /images/{id}\<close> succeeds, \<^verbatim>\<open>fetch_image\<close> makes its two
  \<^verbatim>\<open>GET\<close> requests and no pull, and returns the image built from the resolved info. Two
  calls that both return an image return the same image whenever the catalog resolves the
  query to the same info at both calls.
\<close>

theorem fetch_image_existing_image:
  "(existing_instance_lookup P v q s = (outcome, s1) \<and>
    (query_type q = Alias \<or> is_image_url_supported P) \<and> info_for v q = Inr info \<and>
    transport P (world s1) ''GET'' (image_id_url v (info_id info)) None = (Reply j, w2)
    \<longrightarrow> fetch_image n P v q mon s =
          (Some (Inr (source_image_of (info_id info) info)),
           \<lparr>world = w2,
            trace = trace s @ [Request ''GET'' (existing_instance_url v (name q)) None,
                               Request ''GET'' (image_id_url v (info_id info)) None]\<rparr>)) \<and>
   (fetch_image n P v q mon s = (Some (Inr a), sa) \<and>
    fetch_image n' P' v' q mon' s' = (Some (Inr b), sb) \<and>
    info_for v' q = info_for v q
    \<longrightarrow> a = b)"
proof (intro conjI impI)
  assume a: "existing_instance_lookup P v q s = (outcome, s1) \<and>
    (query_type q = Alias \<or> is_image_url_supported P) \<and> info_for v q = Inr info \<and>
    transport P (world s1) ''GET'' (image_id_url v (info_id info)) None = (Reply j, w2)"
  then have "trace s1 = trace s @ [Request ''GET'' (existing_instance_url v (name q)) None]"
    using existing_instance_lookup_state[of P v q s] by simp
  then show "fetch_image n P v q mon s =
          (Some (Inr (source_image_of (info_id info) info)),
           \<lparr>world = w2,
            trace = trace s @ [Request ''GET'' (existing_instance_url v (name q)) None,
                               Request ''GET'' (image_id_url v (info_id info)) None]\<rparr>)"
    using a fetch_image_after_lookup[of P v q s outcome s1 n mon]
      fetch_resolved_found[of q P v info s1 j w2 n mon] by simp
next
  assume "fetch_image n P v q mon s = (Some (Inr a), sa) \<and>
    fetch_image n' P' v' q mon' s' = (Some (Inr b), sb) \<and>
    info_for v' q = info_for v q"
  then show "a = b"
    using fetch_image_source_image[of n P v q mon s a sa]
      fetch_image_source_image[of n' P' v' q mon' s' b sb]
    by auto
qed

subsection \<open>\<^verbatim>\<open>remove\<close>, \<^verbatim>\<open>update_images\<close> and \<^verbatim>\<open>prune_expired_images\<close>\<close>

text \<open>
  C8. \<^verbatim>\<open>remove\<close> issues one \<^verbatim>\<open>DELETE\<close> for the instance. When the daemon reports not-found
  it logs a warning and returns normally, as it does when the daemon accepts the request;
  another transport error is raised.
\<close>

theorem remove_not_found_is_no_op:
  assumes "transport P (world s) ''DELETE'' (instance_url v nm) None = (r, w')"
  shows
  "remove P v nm s =
     (case r of
        Reply j \<Rightarrow> (Inr (), \<lparr>world = w', trace = trace s @ [Request ''DELETE'' (instance_url v nm) None]\<rparr>)
      | NotFound \<Rightarrow>
          (Inr (), \<lparr>world = w',
                    trace = trace s @ [Request ''DELETE'' (instance_url v nm) None,
                                       Log Level_warning category (not_removing_message nm)]\<rparr>)
      | Failure m \<Rightarrow>
          (Inl (LXDRuntimeError m),
           \<lparr>world = w', trace = trace s @ [Request ''DELETE'' (instance_url v nm) None]\<rparr>))"
  unfolding remove_def lxd_request_eq[OF assms]
  by (cases r) (simp_all add: reply_result_simps log_def)

lemma update_loop_refresh_fails:
  assumes "obj_contains (to_object img) ''update_source''"
    and "transport P (world s) ''POST'' (refresh_url v (to_string (obj_get (to_object img) ''fingerprint''))) None = (r, w')"
    and "reply_result r = Inl e"
  shows "update_loop n P v mon (img # images) s =
           (Some (Inl e),
            \<lparr>world = w',
             trace = trace s @ [Log Level_info category (checking_message (image_release (to_object img))),
                                Request ''POST'' (refresh_url v (to_string (obj_get (to_object img) ''fingerprint''))) None]\<rparr>)"
proof -
  have "lxd_request P ''POST'' (refresh_url v (to_string (obj_get (to_object img) ''fingerprint''))) None
           (log Level_info category (checking_message (image_release (to_object img))) s)
        = (Inl e,
            \<lparr>world = w',
             trace = trace s @ [Log Level_info category (checking_message (image_release (to_object img))),
                                Request ''POST'' (refresh_url v (to_string (obj_get (to_object img) ''fingerprint''))) None]\<rparr>)"
    using assms(2,3) by (simp add: lxd_request_def log_def)
  from update_loop_tracked[OF assms(1) this] show ?thesis by simp
qed

lemma poll_loop_transport_failure:
  assumes "transport P (world s) ''GET'' url None = (Failure m, w')"
  shows "poll_loop (Suc n) P url mon tc s =
           (Some (Inl (LXDRuntimeError m)), \<lparr>world = w', trace = trace s @ [Request ''GET'' url None]\<rparr>)"
  unfolding poll_loop.simps lxd_request_eq[OF assms]
  by (simp add: reply_result_simps)

lemma poll_loop_not_found:
  assumes "transport P (world s) ''GET'' url None = (NotFound, w')"
  shows "poll_loop (Suc n) P url mon tc s =
           (Some (Inr ()), \<lparr>world = w', trace = trace s @ [Request ''GET'' url None]\<rparr>)"
  unfolding poll_loop.simps lxd_request_eq[OF assms]
  by (simp add: reply_result_simps)

lemma update_loop_polled:
  assumes "refresh_polled P v mon img k s = Some (url, s0)"
  shows "update_loop (k + n) P v mon (img # images) s =
           (case poll_loop n P url mon (refresh_task_complete (image_release (to_object img))) s0 of
              (Some (Inr u), s2) \<Rightarrow> update_loop (k + n) P v mon images s2
            | (Some (Inl e), s2) \<Rightarrow> (Some (Inl e), s2)
            | (None, s2) \<Rightarrow> (None, s2))"
proof -
  let ?post = "lxd_request P ''POST'' (refresh_url v (to_string (obj_get (to_object img) ''fingerprint''))) None
      (log Level_info category (checking_message (image_release (to_object img))) s)"
  obtain res s1 where post: "?post = (res, s1)"
    by (cases ?post)
  from assms post obtain json_reply where
    res: "res = Inr json_reply"
    and tracked: "obj_contains (to_object img) ''update_source''"
    and task: "obj_get (to_object (obj_get json_reply ''metadata'')) ''class'' = JString ''task''"
      "to_int (obj_get json_reply ''status_code'') (- 1) = 100"
    and url: "url = operation_url v (to_string (obj_get (to_object (obj_get json_reply ''metadata'')) ''id''))"
    and polled: "polls k P url mon s1 = Some s0"
    unfolding refresh_polled_def by (auto split: sum.splits if_splits)
  have "poll_download_operation (k + n) P v json_reply mon tc s1 = poll_loop n P url mon tc s0"
    for tc :: "'a TaskCompleteAction"
    unfolding poll_download_operation_task[OF task] url[symmetric] by (rule poll_loop_polls[OF polled])
  then show ?thesis
    using update_loop_tracked[OF tracked post[unfolded res], of "k + n" mon images]
    by (simp del: update_loop.simps)
qed

text \<open>
  C9 (as amended). Whatever the daemon answers to the first request of \<^verbatim>\<open>fetch_image\<close> and
  whatever the hosts' full-hash lookups do, \<^verbatim>\<open>fetch_image\<close> goes on as \<^verbatim>\<open>fetch_resolved\<close> from
  a state that differs by that one request: nothing is raised and nothing is logged. In
  \<^verbatim>\<open>update_images\<close>, for a tracked image: a refresh request that fails is raised to the
  caller and ends the sweep; so is, after any number \<open>k\<close> of polls, a poll that fails with a
  transport error, and a refusal of the monitor, as \<^verbatim>\<open>AbortedDownloadException\<close> when the
  \<^verbatim>\<open>DELETE\<close> is accepted and as the transport error when the \<^verbatim>\<open>DELETE\<close> fails with one.
  A poll that is answered not-found or carries an error code other than 0 is not raised:
  the sweep goes on with the remaining images.
\<close>

theorem lookup_failures_stay_inside_update_errors_escape:
  "fetch_image n P v q mon s =
     fetch_resolved n P v q mon
       \<lparr>world = snd (transport P (world s) ''GET'' (existing_instance_url v (name q)) None),
        trace = trace s @ [Request ''GET'' (existing_instance_url v (name q)) None]\<rparr> \<and>
   (obj_contains (to_object img) ''update_source'' \<and>
    transport P (world s) ''POST'' (refresh_url v (to_string (obj_get (to_object img) ''fingerprint''))) None = (r, w') \<and>
    reply_result r = Inl e
    \<longrightarrow> update_loop n P v mon (img # images) s =
           (Some (Inl e),
            \<lparr>world = w',
             trace = trace s @ [Log Level_info category (checking_message (image_release (to_object img))),
                                Request ''POST'' (refresh_url v (to_string (obj_get (to_object img) ''fingerprint''))) None]\<rparr>)) \<and>
   (refresh_polled P v mon img k s = Some (url, s0) \<and>
    transport P (world s0) ''GET'' url None = (Failure m, w')
    \<longrightarrow> update_loop (k + Suc n) P v mon (img # images) s =
           (Some (Inl (LXDRuntimeError m)),
            \<lparr>world = w', trace = trace s0 @ [Request ''GET'' url None]\<rparr>)) \<and>
   (refresh_polled P v mon img k s = Some (url, s0) \<and>
    lxd_request P ''GET'' url None s0 = (Inr task_reply, s1) \<and>
    to_int (obj_get task_reply ''error_code'') (- 1) = 0 \<and>
    to_int (obj_get (to_object (obj_get task_reply ''metadata'')) ''status_code'') (- 1) \<noteq> 200 \<and>
    call_monitor mon LaunchProgress_IMAGE
      (parse_percent_as_int
         (to_string (obj_get (to_object (obj_get (to_object (obj_get task_reply ''metadata'')) ''metadata''))
            ''download_progress''))) s1 = (False, s2) \<and>
    transport P (world s2) ''DELETE'' url None = (r, w')
    \<longrightarrow> (\<forall>j. r = Reply j \<longrightarrow>
            update_loop (k + Suc n) P v mon (img # images) s =
              (Some (Inl (AbortedDownloadException ''Download aborted'')),
               \<lparr>world = w', trace = trace s2 @ [Request ''DELETE'' url None]\<rparr>)) \<and>
         (\<forall>m. r = Failure m \<longrightarrow>
            update_loop (k + Suc n) P v mon (img # images) s =
              (Some (Inl (LXDRuntimeError m)),
               \<lparr>world = w', trace = trace s2 @ [Request ''DELETE'' url None]\<rparr>))) \<and>
   (refresh_polled P v mon img k s = Some (url, s0) \<and>
    transport P (world s0) ''GET'' url None = (NotFound, w')
    \<longrightarrow> update_loop (k + Suc n) P v mon (img # images) s =
           update_loop (k + Suc n) P v mon images
             \<lparr>world = w', trace = trace s0 @ [Request ''GET'' url None]\<rparr>) \<and>
   (refresh_polled P v mon img k s = Some (url, s0) \<and>
    transport P (world s0) ''GET'' url None = (Reply task_reply, w') \<and>
    obj_get task_reply ''error_code'' \<noteq> JNum 0
    \<longrightarrow> update_loop (k + Suc n) P v mon (img # images) s =
           update_loop (k + Suc n) P v mon images
             \<lparr>world = w', trace = trace s0 @ [Request ''GET'' url None]\<rparr>)"
proof (intro conjI impI)
  show "fetch_image n P v q mon s =
     fetch_resolved n P v q mon
       \<lparr>world = snd (transport P (world s) ''GET'' (existing_instance_url v (name q)) None),
        trace = trace s @ [Request ''GET'' (existing_instance_url v (name q)) None]\<rparr>"
    using existing_instance_lookup_state[of P v q s]
    by (cases "existing_instance_lookup P v q s") (simp add: fetch_image_def)
next
  assume a: "obj_contains (to_object img) ''update_source'' \<and>
    transport P (world s) ''POST'' (refresh_url v (to_string (obj_get (to_object img) ''fingerprint''))) None = (r, w') \<and>
    reply_result r = Inl e"
  show "update_loop n P v mon (img # images) s =
           (Some (Inl e),
            \<lparr>world = w',
             trace = trace s @ [Log Level_info category (checking_message (image_release (to_object img))),
                                Request ''POST'' (refresh_url v (to_string (obj_get (to_object img) ''fingerprint''))) None]\<rparr>)"
    by (rule update_loop_refresh_fails[OF conjunct1[OF a] conjunct1[OF conjunct2[OF a]]
          conjunct2[OF conjunct2[OF a]]])
next
  assume a: "refresh_polled P v mon img k s = Some (url, s0) \<and>
    transport P (world s0) ''GET'' url None = (Failure m, w')"
  show "update_loop (k + Suc n) P v mon (img # images) s =
           (Some (Inl (LXDRuntimeError m)),
            \<lparr>world = w', trace = trace s0 @ [Request ''GET'' url None]\<rparr>)"
    unfolding update_loop_polled[OF conjunct1[OF a]] poll_loop_transport_failure[OF conjunct2[OF a]]
    by simp
next
  assume a: "refresh_polled P v mon img k s = Some (url, s0) \<and>
    lxd_request P ''GET'' url None s0 = (Inr task_reply, s1) \<and>
    to_int (obj_get task_reply ''error_code'') (- 1) = 0 \<and>
    to_int (obj_get (to_object (obj_get task_reply ''metadata'')) ''status_code'') (- 1) \<noteq> 200 \<and>
    call_monitor mon LaunchProgress_IMAGE
      (parse_percent_as_int
         (to_string (obj_get (to_object (obj_get (to_object (obj_get task_reply ''metadata'')) ''metadata''))
            ''download_progress''))) s1 = (False, s2) \<and>
    transport P (world s2) ''DELETE'' url None = (r, w')"
  then have polled: "refresh_polled P v mon img k s = Some (url, s0)"
    and reply: "lxd_request P ''GET'' url None s0 = (Inr task_reply, s1)"
    and code: "to_int (obj_get task_reply ''error_code'') (- 1) = 0"
    and status: "to_int (obj_get (to_object (obj_get task_reply ''metadata'')) ''status_code'') (- 1) \<noteq> 200"
    and abort: "call_monitor mon LaunchProgress_IMAGE
      (parse_percent_as_int
         (to_string (obj_get (to_object (obj_get (to_object (obj_get task_reply ''metadata'')) ''metadata''))
            ''download_progress''))) s1 = (False, s2)"
    and del: "transport P (world s2) ''DELETE'' url None = (r, w')"
    by simp_all
  note loop = poll_loop_abort[OF reply code status abort del, of n
      "refresh_task_complete (image_release (to_object img))"]
  show "\<forall>j. r = Reply j \<longrightarrow>
            update_loop (k + Suc n) P v mon (img # images) s =
              (Some (Inl (AbortedDownloadException ''Download aborted'')),
               \<lparr>world = w', trace = trace s2 @ [Request ''DELETE'' url None]\<rparr>)"
    unfolding update_loop_polled[OF polled] loop by simp
  show "\<forall>m. r = Failure m \<longrightarrow>
            update_loop (k + Suc n) P v mon (img # images) s =
              (Some (Inl (LXDRuntimeError m)),
               \<lparr>world = w', trace = trace s2 @ [Request ''DELETE'' url None]\<rparr>)"
    unfolding update_loop_polled[OF polled] loop by simp
next
  assume a: "refresh_polled P v mon img k s = Some (url, s0) \<and>
    transport P (world s0) ''GET'' url None = (NotFound, w')"
  show "update_loop (k + Suc n) P v mon (img # images) s =
           update_loop (k + Suc n) P v mon images
             \<lparr>world = w', trace = trace s0 @ [Request ''GET'' url None]\<rparr>"
    unfolding update_loop_polled[OF conjunct1[OF a]] poll_loop_not_found[OF conjunct2[OF a]]
    by simp
next
  assume a: "refresh_polled P v mon img k s = Some (url, s0) \<and>
    transport P (world s0) ''GET'' url None = (Reply task_reply, w') \<and>
    obj_get task_reply ''error_code'' \<noteq> JNum 0"
  show "update_loop (k + Suc n) P v mon (img # images) s =
           update_loop (k + Suc n) P v mon images
             \<lparr>world = w', trace = trace s0 @ [Request ''GET'' url None]\<rparr>"
    unfolding update_loop_polled[OF conjunct1[OF a]]
      poll_loop_error_code[OF conjunct1[OF conjunct2[OF a]] conjunct2[OF conjunct2[OF a]]]
    by simp
qed

lemma deleted_urls_append: "deleted_urls (xs @ ys) = deleted_urls xs @ deleted_urls ys"
  by (induction xs rule: deleted_urls.induct) simp_all

lemma prune_step_trace:
  assumes "lxd_request P ''DELETE'' url None (log lv cat msg s) = (res, s1)"
  shows "deleted_urls (trace s1) = deleted_urls (trace s) @ [url]"
  using lxd_request_trace[OF assms] by (simp add: log_def deleted_urls_append)

lemma wrap64_id: "int64_range x \<Longrightarrow> wrap64 x = x"
  unfolding int64_range_def wrap64_def by simp

lemma wrap64_0: "wrap64 0 = 0"
  by (simp add: wrap64_def)

lemma delete_until_failure_Cons:
  assumes "transport P w ''DELETE'' url None = (r, w')"
  shows "delete_until_failure P (url # urls) w =
           (case reply_result r of
              Inl e \<Rightarrow> (Inl e, [url])
            | Inr j \<Rightarrow> (fst (delete_until_failure P urls w'), url # snd (delete_until_failure P urls w')))"
  using assms by (simp split: prod.splits sum.splits)

lemma delete_until_failure_prefix: "prefix (snd (delete_until_failure P urls w)) urls"
proof (induction urls arbitrary: w)
  case Nil
  show ?case by simp
next
  case (Cons url urls)
  obtain r w' where t: "transport P w ''DELETE'' url None = (r, w')"
    by (cases "transport P w ''DELETE'' url None")
  show ?case
    unfolding delete_until_failure_Cons[OF t] using Cons.IH[of w']
    by (cases "reply_result r") simp_all
qed

lemma delete_until_failure_all:
  "fst (delete_until_failure P urls w) = Inr () \<Longrightarrow> snd (delete_until_failure P urls w) = urls"
proof (induction urls arbitrary: w)
  case Nil
  show ?case by simp
next
  case (Cons url urls)
  obtain r w' where t: "transport P w ''DELETE'' url None = (r, w')"
    by (cases "transport P w ''DELETE'' url None")
  show ?case
    using Cons.prems Cons.IH[of w'] unfolding delete_until_failure_Cons[OF t]
    by (cases "reply_result r") simp_all
qed

lemma prune_loop_sweep:
  assumes clock: "\<And>w. system_clock_now P w = now"
  shows
  "fst (prune_loop P v images s) =
     fst (delete_until_failure P
            (map (image_url v) (filter (image_expired P v now) (map to_object images))) (world s)) \<and>
   deleted_urls (trace (snd (prune_loop P v images s))) =
     deleted_urls (trace s) @
     snd (delete_until_failure P
            (map (image_url v) (filter (image_expired P v now) (map to_object images))) (world s))"
proof (induction images arbitrary: s)
  case Nil
  show ?case by simp
next
  case (Cons img images)
  let ?rest = "map (image_url v) (filter (image_expired P v now) (map to_object images))"
  show ?case
  proof (cases "image_expired P v now (to_object img)")
    case False
    then have "prune_loop P v (img # images) s = prune_loop P v images s"
      by (simp add: clock Let_def)
    with Cons.IH[of s] False show ?thesis by simp
  next
    case True
    let ?url = "image_url v (to_object img)"
    let ?logged = "log Level_info category (expired_message (image_release (to_object img))) s"
    obtain r w' where t: "transport P (world s) ''DELETE'' ?url None = (r, w')"
      by (cases "transport P (world s) ''DELETE'' ?url None")
    let ?s1 = "\<lparr>world = w', trace = trace ?logged @ [Request ''DELETE'' ?url None]\<rparr>"
    have del: "lxd_request P ''DELETE'' ?url None ?logged = (reply_result r, ?s1)"
      using t by (simp add: lxd_request_def log_def)
    have t1: "deleted_urls (trace ?s1) = deleted_urls (trace s) @ [?url]"
      by (rule prune_step_trace[OF del])
    have urls: "map (image_url v) (filter (image_expired P v now) (map to_object (img # images))) = ?url # ?rest"
      using True by simp
    show ?thesis
    proof (cases "reply_result r")
      case (Inl e)
      then have "prune_loop P v (img # images) s = (Inl e, ?s1)"
        using True del by (simp add: clock Let_def)
      moreover have "delete_until_failure P (?url # ?rest) (world s) = (Inl e, [?url])"
        unfolding delete_until_failure_Cons[OF t] using Inl by simp
      ultimately show ?thesis
        unfolding urls using t1 by simp
    next
      case (Inr j)
      then have "prune_loop P v (img # images) s = prune_loop P v images ?s1"
        using True del by (simp add: clock Let_def)
      moreover have "delete_until_failure P (?url # ?rest) (world s) =
          (fst (delete_until_failure P ?rest w'), ?url # snd (delete_until_failure P ?rest w'))"
        unfolding delete_until_failure_Cons[OF t] using Inr by simp
      ultimately show ?thesis
        unfolding urls using Cons.IH[of ?s1] t1 by simp
    qed
  qed
qed

text \<open>
  C6 (as amended). With the clock at \<open>now\<close>, \<^verbatim>\<open>prune_expired_images\<close> does what a sweep over
  the eligible images of the listing does: it requests their deletion in listing order and
  stops at the first request that fails, with that failure; when it returns normally all of
  them were requested. An image is eligible when it has an \<^verbatim>\<open>update_source\<close> and its last
  use plus \<^verbatim>\<open>days_to_expire\<close>, computed in 64-bit nanoseconds, is not after \<open>now\<close>; as long
  as nothing overflows this is the plain comparison. Then, with \<^verbatim>\<open>days_to_expire = 0\<close> a
  tracked image is eligible exactly when its last use is not after \<open>now\<close>, and with
  \<^verbatim>\<open>days_to_expire = 1\<close> and last use \<open>now\<close> it is not; an image without
  \<^verbatim>\<open>update_source\<close> never is.
\<close>

theorem prune_expired_images_deletes:
  assumes clock: "\<forall>w. system_clock_now P w = now"
    and listing: "transport P (world s) ''GET'' (images_url v) None = (Reply json_reply, w1)"
    and eligible: "eligible =
      map (image_url v)
        (filter (image_expired P v now) (map to_object (to_array (obj_get json_reply ''metadata''))))"
  shows
  "fst (prune_expired_images P v s) = fst (delete_until_failure P eligible w1) \<and>
   deleted_urls (trace (snd (prune_expired_images P v s))) =
     deleted_urls (trace s) @ snd (delete_until_failure P eligible w1) \<and>
   prefix (snd (delete_until_failure P eligible w1)) eligible \<and>
   (fst (prune_expired_images P v s) = Inr () \<longrightarrow>
      deleted_urls (trace (snd (prune_expired_images P v s))) = deleted_urls (trace s) @ eligible) \<and>
   (image_expired P v now i \<longleftrightarrow>
      obj_contains i ''update_source'' \<and>
      wrap64 (wrap64 (iso_date_to_msecs P (to_string (obj_get i ''last_used_at'')) * 1000000) +
              wrap64 (days_to_expire v * 86400000000000)) \<le> now) \<and>
   (int64_range (iso_date_to_msecs P (to_string (obj_get i ''last_used_at'')) * 1000000) \<and>
    int64_range (days_to_expire v * 86400000000000) \<and>
    int64_range (iso_date_to_msecs P (to_string (obj_get i ''last_used_at'')) * 1000000 +
                 days_to_expire v * 86400000000000)
    \<longrightarrow> (image_expired P v now i \<longleftrightarrow>
           obj_contains i ''update_source'' \<and>
           iso_date_to_msecs P (to_string (obj_get i ''last_used_at'')) * 1000000 +
             days_to_expire v * 86400000000000 \<le> now)) \<and>
   (days_to_expire v = 0 \<and>
    int64_range (iso_date_to_msecs P (to_string (obj_get i ''last_used_at'')) * 1000000)
    \<longrightarrow> (image_expired P v now i \<longleftrightarrow>
           obj_contains i ''update_source'' \<and>
           iso_date_to_msecs P (to_string (obj_get i ''last_used_at'')) * 1000000 \<le> now)) \<and>
   (days_to_expire v = 1 \<and>
    iso_date_to_msecs P (to_string (obj_get i ''last_used_at'')) * 1000000 = now \<and>
    int64_range now \<and> int64_range (now + 86400000000000)
    \<longrightarrow> \<not> image_expired P v now i) \<and>
   (\<not> obj_contains i ''update_source'' \<longrightarrow> \<not> image_expired P v now i)"
proof -
  let ?s1 = "\<lparr>world = w1, trace = trace s @ [Request ''GET'' (images_url v) None]\<rparr>"
  let ?ms = "iso_date_to_msecs P (to_string (obj_get i ''last_used_at''))"
  have run: "prune_expired_images P v s = prune_loop P v (to_array (obj_get json_reply ''metadata'')) ?s1"
    by (simp add: prune_expired_images_def lxd_request_eq[OF listing] reply_result_simps)
  have base: "deleted_urls (trace ?s1) = deleted_urls (trace s)"
    by (simp add: deleted_urls_append)
  have sweep: "fst (prune_expired_images P v s) = fst (delete_until_failure P eligible w1) \<and>
      deleted_urls (trace (snd (prune_expired_images P v s))) =
        deleted_urls (trace s) @ snd (delete_until_failure P eligible w1)"
    unfolding run eligible
    using prune_loop_sweep[of P now v "to_array (obj_get json_reply ''metadata'')" ?s1] clock base
    by simp
  have pre: "prefix (snd (delete_until_failure P eligible w1)) eligible"
    by (rule delete_until_failure_prefix)
  have all: "fst (prune_expired_images P v s) = Inr () \<longrightarrow>
      deleted_urls (trace (snd (prune_expired_images P v s))) = deleted_urls (trace s) @ eligible"
    using sweep delete_until_failure_all[of P eligible w1] by simp
  have crit: "image_expired P v now i \<longleftrightarrow>
      obj_contains i ''update_source'' \<and>
      wrap64 (wrap64 (?ms * 1000000) + wrap64 (days_to_expire v * 86400000000000)) \<le> now"
    by (simp add: image_expired_def last_used_nsecs_def msecs_to_nsecs_def days_to_nsecs_def)
  have plain: "int64_range (?ms * 1000000) \<and> int64_range (days_to_expire v * 86400000000000) \<and>
      int64_range (?ms * 1000000 + days_to_expire v * 86400000000000)
      \<longrightarrow> (image_expired P v now i \<longleftrightarrow>
           obj_contains i ''update_source'' \<and>
           ?ms * 1000000 + days_to_expire v * 86400000000000 \<le> now)"
    unfolding crit by (simp add: wrap64_id)
  have zero: "days_to_expire v = 0 \<and> int64_range (?ms * 1000000)
      \<longrightarrow> (image_expired P v now i \<longleftrightarrow> obj_contains i ''update_source'' \<and> ?ms * 1000000 \<le> now)"
    unfolding crit by (simp add: wrap64_id wrap64_0)
  have one: "days_to_expire v = 1 \<and> ?ms * 1000000 = now \<and> int64_range now \<and>
      int64_range (now + 86400000000000) \<longrightarrow> \<not> image_expired P v now i"
  proof
    assume a: "days_to_expire v = 1 \<and> ?ms * 1000000 = now \<and> int64_range now \<and>
      int64_range (now + 86400000000000)"
    have day: "wrap64 86400000000000 = 86400000000000"
      by (simp add: wrap64_def)
    have "wrap64 (wrap64 (?ms * 1000000) + wrap64 (days_to_expire v * 86400000000000)) =
        now + 86400000000000"
      using a by (simp add: wrap64_id day)
    then show "\<not> image_expired P v now i"
      unfolding crit by simp
  qed
  have untracked: "\<not> obj_contains i ''update_source'' \<longrightarrow> \<not> image_expired P v now i"
    by (simp add: image_expired_def)
  from sweep pre all crit plain zero one untracked show ?thesis
    by blast
qed

subsection \<open>Runs against the scripted daemon\<close>

theorem poll_error_code_returns_normally_witness:
  "fetch_image 2 (ex_platform ex_pull_script) (ex_vault 0) (ex_query ''xenial'' []) always_continue ex_start =
     (Some (Inr (source_image_of ''abc123'' ex_info)),
      \<lparr>world = 5,
       trace = [Request ''GET'' ''unix:/lxd/1.0/virtual_machines/inst'' None,
                Request ''GET'' ''unix:/lxd/1.0/images/abc123'' None,
                Request ''POST'' ''unix:/lxd/1.0/images''
                  (Some [(''source'', JObject (pull_source_object (ex_query ''xenial'' []) ex_info))]),
                Request ''GET'' ''unix:/lxd/1.0/operations/op1'' None,
                Monitor 0 45 True,
                Request ''GET'' ''unix:/lxd/1.0/operations/op1'' None]\<rparr>) \<and>
   update_loop 2 (ex_platform ex_refresh_script) (ex_vault 0) always_continue
       [ex_image ''f1'' ''2020-01-01T00:00:00.000Z'' True] ex_start =
     (Some (Inr ()),
      \<lparr>world = 3,
       trace = [Log Level_info category (checking_message ''xenial''),
                Request ''POST'' ''unix:/lxd/1.0/images/f1/refresh'' None,
                Request ''GET'' ''unix:/lxd/1.0/operations/op1'' None,
                Monitor 0 45 True,
                Request ''GET'' ''unix:/lxd/1.0/operations/op1'' None]\<rparr>)"
proof -
  let ?V = "ex_vault 0"
  let ?url = "operation_url ?V (to_string (obj_get (to_object (obj_get ex_task ''metadata'')) ''id''))"
  have task: "obj_get (to_object (obj_get ex_task ''metadata'')) ''class'' = JString ''task''"
    "to_int (obj_get ex_task ''status_code'') (- 1) = 100"
    by code_simp+
  have code: "obj_get ex_failed ''error_code'' \<noteq> JNum 0"
    by code_simp
  \<comment> \<open>the pull of \<^verbatim>\<open>fetch_image\<close>\<close>
  let ?P = "ex_platform ex_pull_script"
  let ?Q = "ex_query ''xenial'' []"
  let ?looked = "\<lparr>world = 1, trace = [Request ''GET'' (existing_instance_url ?V (name ?Q)) None]\<rparr> :: nat vstate"
  let ?posted = "\<lparr>world = 3,
             trace = [Request ''GET'' (existing_instance_url ?V (name ?Q)) None,
                      Request ''GET'' (image_id_url ?V (info_id ex_info)) None,
                      Request ''POST'' (images_url ?V)
                        (Some [(''source'', JObject (pull_source_object ?Q ex_info))])]\<rparr> :: nat vstate"
  let ?polled = "\<lparr>world = 4, trace = trace ?posted @ [Request ''GET'' ?url None, Monitor 0 45 True]\<rparr> :: nat vstate"
  have polled: "polls 1 ?P ?url always_continue ?posted = Some ?polled"
    by code_simp
  have reply: "transport ?P (world ?polled) ''GET'' ?url None = (Reply ex_failed, 5)"
    by code_simp
  have lookup: "existing_instance_lookup ?P ?V ?Q ex_start = (Inl LXDNotFoundException, ?looked)"
    by code_simp
  have kind: "query_type ?Q = Alias \<or> is_image_url_supported ?P"
    by code_simp
  have info: "info_for ?V ?Q = Inr ex_info"
    by code_simp
  have probe: "transport ?P (world ?looked) ''GET'' (image_id_url ?V (info_id ex_info)) None = (NotFound, 2)"
    by code_simp
  have post: "lxd_request ?P ''POST'' (images_url ?V) (Some [(''source'', JObject (pull_source_object ?Q ex_info))])
      \<lparr>world = 2, trace = trace ?looked @ [Request ''GET'' (image_id_url ?V (info_id ex_info)) None]\<rparr>
      = (Inr ex_task, ?posted)"
    by code_simp
  from poll_error_code_returns_normally[OF task refl polled reply code,
      where n = 0 and q = ?Q and sa = ex_start and outcome = "Inl LXDNotFoundException" and ?s1.0 = ?looked
        and info = ex_info and ?w2.0 = 2]
    lookup kind info probe post
  have fetch: "fetch_image (1 + Suc 0) ?P ?V ?Q always_continue ex_start =
      (Some (Inr (source_image_of (info_id ex_info) ex_info)),
       \<lparr>world = 5, trace = trace ?polled @ [Request ''GET'' ?url None]\<rparr>)"
    by blast
  \<comment> \<open>the refresh of \<^verbatim>\<open>update_images\<close>\<close>
  let ?P' = "ex_platform ex_refresh_script"
  let ?img = "ex_image ''f1'' ''2020-01-01T00:00:00.000Z'' True"
  let ?posted2 = "\<lparr>world = 1,
             trace = [Log Level_info category (checking_message (image_release (to_object ?img))),
                      Request ''POST'' (refresh_url ?V (to_string (obj_get (to_object ?img) ''fingerprint''))) None]\<rparr>
             :: nat vstate"
  let ?polled2 = "\<lparr>world = 2, trace = trace ?posted2 @ [Request ''GET'' ?url None, Monitor 0 45 True]\<rparr> :: nat vstate"
  have polled': "polls 1 ?P' ?url always_continue ?posted2 = Some ?polled2"
    by code_simp
  have reply': "transport ?P' (world ?polled2) ''GET'' ?url None = (Reply ex_failed, 3)"
    by code_simp
  have tracked: "obj_contains (to_object ?img) ''update_source''"
    by code_simp
  have post': "lxd_request ?P' ''POST'' (refresh_url ?V (to_string (obj_get (to_object ?img) ''fingerprint''))) None
      (log Level_info category (checking_message (image_release (to_object ?img))) ex_start) = (Inr ex_task, ?posted2)"
    by code_simp
  from poll_error_code_returns_normally[OF task refl polled' reply' code,
      where n = 0 and img = ?img and sb = ex_start and images = "[]"]
    tracked post'
  have update: "update_loop (1 + Suc 0) ?P' ?V always_continue [?img] ex_start =
      update_loop (1 + Suc 0) ?P' ?V always_continue [] \<lparr>world = 3, trace = trace ?polled2 @ [Request ''GET'' ?url None]\<rparr>"
    by blast
  have e1: "(Some (Inr (source_image_of (info_id ex_info) ex_info)) :: (exn + VMImage) option,
       \<lparr>world = 5::nat, trace = trace ?polled @ [Request ''GET'' ?url None]\<rparr>) =
     (Some (Inr (source_image_of ''abc123'' ex_info)),
      \<lparr>world = 5,
       trace = [Request ''GET'' ''unix:/lxd/1.0/virtual_machines/inst'' None,
                Request ''GET'' ''unix:/lxd/1.0/images/abc123'' None,
                Request ''POST'' ''unix:/lxd/1.0/images''
                  (Some [(''source'', JObject (pull_source_object (ex_query ''xenial'' []) ex_info))]),
                Request ''GET'' ''unix:/lxd/1.0/operations/op1'' None,
                Monitor 0 45 True,
                Request ''GET'' ''unix:/lxd/1.0/operations/op1'' None]\<rparr>)"
    by code_simp
  have e2: "update_loop (1 + Suc 0) ?P' ?V always_continue [] \<lparr>world = 3::nat, trace = trace ?polled2 @ [Request ''GET'' ?url None]\<rparr> =
     (Some (Inr ()),
      \<lparr>world = 3,
       trace = [Log Level_info category (checking_message ''xenial''),
                Request ''POST'' ''unix:/lxd/1.0/images/f1/refresh'' None,
                Request ''GET'' ''unix:/lxd/1.0/operations/op1'' None,
                Monitor 0 45 True,
                Request ''GET'' ''unix:/lxd/1.0/operations/op1'' None]\<rparr>)"
    by code_simp
  have two: "1 + Suc 0 = (2::nat)" by simp
  note fetch' = fetch[unfolded e1]
  note update' = update[unfolded e2]
  show ?thesis
    using fetch' update' unfolding two by (rule conjI)
qed

lemma ex_remote_map:
  "remote_image_host_map (ex_vault 0) ''nope'' = None"
  "remote_image_host_map (ex_vault 0) ''release'' = Some ex_host"
proof -
  have hosts: "supported_remotes ex_host = [''release'', ''appliance'']"
    "supported_remotes ex_empty_host = [''daily'']"
    by (simp_all add: ex_host_def ex_empty_host_def)
  show "remote_image_host_map (ex_vault 0) ''nope'' = None"
    "remote_image_host_map (ex_vault 0) ''release'' = Some ex_host"
    by (simp_all add: ex_vault_def new_LXDVMImageVault_def add_remotes_def ex_platform_def hosts)
qed

theorem info_for_resolution_witness:
  "info_for (ex_vault 0) (ex_query ''xenial'' ''nope'') = Inl (unknown_remote ''nope'') \<and>
   info_for (ex_vault 0) (ex_query ''xenial'' ''release'') = Inr ex_info \<and>
   info_for (ex_vault 0) (ex_query ''bionic'' ''release'') = Inl (no_matching_image ''bionic'') \<and>
   info_for (ex_vault 0) (ex_query ''xenial'' []) = Inr ex_info \<and>
   info_for (ex_vault 0) (ex_query ''bionic'' []) = Inl (no_matching_image ''bionic'') \<and>
   remote_image_host_map (ex_vault 0) ''appliance'' = None"
proof -
  note res = info_for_resolution[OF ex_vault_def[of 0]]
  have a: "info_for (ex_vault 0) (ex_query ''xenial'' ''nope'') = Inl (unknown_remote ''nope'')"
    using res[of _ "ex_query ''xenial'' ''nope''"] ex_remote_map(1)
    by (simp add: ex_query_def)
  have b: "info_for (ex_vault 0) (ex_query ''xenial'' ''release'') = Inr ex_info"
    using res[of _ "ex_query ''xenial'' ''release''" ex_host] ex_remote_map(2)
    by (simp add: ex_query_def ex_host_def)
  have c: "info_for (ex_vault 0) (ex_query ''bionic'' ''release'') = Inl (no_matching_image ''bionic'')"
    using res[of _ "ex_query ''bionic'' ''release''" ex_host] ex_remote_map(2)
    by (simp add: ex_query_def ex_host_def)
  have d: "info_for (ex_vault 0) (ex_query ''xenial'' []) = Inr ex_info"
    using res[of _ "ex_query ''xenial'' []" _ 1 ex_info]
    by (simp add: ex_query_def ex_host_def ex_empty_host_def)
  have e: "info_for (ex_vault 0) (ex_query ''bionic'' []) = Inl (no_matching_image ''bionic'')"
    using res[of _ "ex_query ''bionic'' []"]
    by (simp add: ex_query_def ex_host_def ex_empty_host_def)
  have f: "remote_image_host_map (ex_vault 0) ''appliance'' = None"
    using res[of "''appliance''"]
    by (simp add: ex_platform_def)
  from a b c d e f show ?thesis by simp
qed

theorem poll_abort_call_fails_otherwise_counterexample:
  "poll_download_operation 5 (ex_platform ex_abort_fail_script) (ex_vault 0) ex_task always_abort
       no_task_complete ex_start =
     (Some (Inl (LXDRuntimeError ''connection reset'')),
      \<lparr>world = 2,
       trace = [Request ''GET'' ''unix:/lxd/1.0/operations/op1'' None,
                Monitor 0 45 False,
                Request ''DELETE'' ''unix:/lxd/1.0/operations/op1'' None]\<rparr>)"
  by code_simp

theorem poll_abort_cancels_witness:
  "poll_loop 2 (ex_platform ex_abort_script) ''unix:/lxd/1.0/operations/op1'' abort_after_two
       no_task_complete ex_start =
     (Some (Inl (AbortedDownloadException ''Download aborted'')),
      \<lparr>world = 3,
       trace = [Request ''GET'' ''unix:/lxd/1.0/operations/op1'' None,
                Monitor 0 45 True,
                Request ''GET'' ''unix:/lxd/1.0/operations/op1'' None,
                Monitor 0 45 False,
                Request ''DELETE'' ''unix:/lxd/1.0/operations/op1'' None]\<rparr>) \<and>
   poll_loop 1 (ex_platform ex_abort_fail_script) ''unix:/lxd/1.0/operations/op1'' always_abort
       no_task_complete ex_start =
     (Some (Inl (LXDRuntimeError ''connection reset'')),
      \<lparr>world = 2,
       trace = [Request ''GET'' ''unix:/lxd/1.0/operations/op1'' None,
                Monitor 0 45 False,
                Request ''DELETE'' ''unix:/lxd/1.0/operations/op1'' None]\<rparr>) \<and>
   (\<exists>pre p.
      [Request ''GET'' ''unix:/lxd/1.0/operations/op1'' None,
       Monitor 0 45 True,
       Request ''GET'' ''unix:/lxd/1.0/operations/op1'' None,
       Monitor 0 45 False,
       Request ''DELETE'' ''unix:/lxd/1.0/operations/op1'' None] =
      pre @ [Monitor LaunchProgress_IMAGE p False, Request ''DELETE'' ''unix:/lxd/1.0/operations/op1'' None])"
proof -
  let ?url = "''unix:/lxd/1.0/operations/op1''"
  let ?progress = "parse_percent_as_int
      (to_string (obj_get (to_object (obj_get (to_object (obj_get ex_progress ''metadata'')) ''metadata''))
         ''download_progress''))"
  have code: "to_int (obj_get ex_progress ''error_code'') (- 1) = 0"
    by code_simp
  have status: "to_int (obj_get (to_object (obj_get ex_progress ''metadata'')) ''status_code'') (- 1) \<noteq> 200"
    by code_simp
  \<comment> \<open>the daemon accepts the \<^verbatim>\<open>DELETE\<close>\<close>
  let ?P = "ex_platform ex_abort_script"
  let ?a = "\<lparr>world = 1, trace = [Request ''GET'' ?url None, Monitor 0 45 True]\<rparr> :: nat vstate"
  let ?b = "\<lparr>world = 2, trace = trace ?a @ [Request ''GET'' ?url None]\<rparr> :: nat vstate"
  let ?c = "\<lparr>world = 2, trace = trace ?b @ [Monitor 0 45 False]\<rparr> :: nat vstate"
  have polled: "polls 1 ?P ?url abort_after_two ex_start = Some ?a"
    by code_simp
  have reply: "lxd_request ?P ''GET'' ?url None ?a = (Inr ex_progress, ?b)"
    by code_simp
  have abort: "call_monitor abort_after_two LaunchProgress_IMAGE ?progress ?b = (False, ?c)"
    by code_simp
  have del: "transport ?P (world ?c) ''DELETE'' ?url None = (Reply [], 3)"
    by code_simp
  note accepted = poll_abort_cancels[OF polled reply code status abort del,
      where n = 0 and tc = no_task_complete]
  have final: "\<lparr>world = 3::nat, trace = trace ?c @ [Request ''DELETE'' ?url None]\<rparr> =
      \<lparr>world = 3,
       trace = [Request ''GET'' ?url None, Monitor 0 45 True, Request ''GET'' ?url None,
                Monitor 0 45 False, Request ''DELETE'' ?url None]\<rparr>"
    by code_simp
  have two: "1 + Suc 0 = (2::nat)" by simp
  note run = conjunct1[OF accepted, rule_format, OF refl, unfolded final two]
  note only = conjunct2[OF conjunct2[OF accepted], rule_format, OF run, THEN conjunct2,
      unfolded vstate.select_convs]
  \<comment> \<open>the \<^verbatim>\<open>DELETE\<close> fails\<close>
  let ?P' = "ex_platform ex_abort_fail_script"
  let ?b' = "\<lparr>world = 1, trace = [Request ''GET'' ?url None]\<rparr> :: nat vstate"
  let ?c' = "\<lparr>world = 1, trace = trace ?b' @ [Monitor 0 45 False]\<rparr> :: nat vstate"
  have polled': "polls 0 ?P' ?url always_abort ex_start = Some ex_start"
    by code_simp
  have reply': "lxd_request ?P' ''GET'' ?url None ex_start = (Inr ex_progress, ?b')"
    by code_simp
  have abort': "call_monitor always_abort LaunchProgress_IMAGE ?progress ?b' = (False, ?c')"
    by code_simp
  have del': "transport ?P' (world ?c') ''DELETE'' ?url None = (Failure ''connection reset'', 2)"
    by code_simp
  have final': "\<lparr>world = 2::nat, trace = trace ?c' @ [Request ''DELETE'' ?url None]\<rparr> =
      \<lparr>world = 2,
       trace = [Request ''GET'' ?url None, Monitor 0 45 False, Request ''DELETE'' ?url None]\<rparr>"
    by code_simp
  have one: "0 + Suc 0 = (1::nat)" by simp
  note run' = conjunct1[OF conjunct2[OF poll_abort_cancels[OF polled' reply' code status abort' del',
      where n = 0 and tc = no_task_complete]], rule_format, OF refl, unfolded final' one]
  show ?thesis
    by (intro conjI) (rule run, rule run', rule only)
qed

theorem fetch_image_pull_request_witness:
  "prefix
     [Request ''GET'' ''unix:/lxd/1.0/virtual_machines/inst'' None,
      Request ''GET'' ''unix:/lxd/1.0/images/abc123'' None,
      Request ''POST'' ''unix:/lxd/1.0/images''
        (Some [(''source'', JObject
           [(''type'', JString ''image''), (''mode'', JString ''pull''),
            (''server'', JString ''https://cloud-images.ubuntu.com/releases''),
            (''protocol'', JString ''simplestreams''), (''image_type'', JString ''virtual-machine''),
            (''alias'', JString ''xenial'')])])]
     (trace (snd (fetch_image 2 (ex_platform ex_pull_script) (ex_vault 0) (ex_query ''xenial'' [])
                    always_continue ex_start))) \<and>
   prefix
     [Request ''GET'' ''unix:/lxd/1.0/virtual_machines/inst'' None,
      Request ''GET'' ''unix:/lxd/1.0/images/abc123'' None,
      Request ''POST'' ''unix:/lxd/1.0/images''
        (Some [(''source'', JObject
           [(''type'', JString ''image''), (''mode'', JString ''pull''),
            (''server'', JString ''https://cloud-images.ubuntu.com/releases''),
            (''protocol'', JString ''simplestreams''), (''image_type'', JString ''virtual-machine''),
            (''fingerprint'', JString ''abc123'')])])]
     (trace (snd (fetch_image 2 (ex_platform ex_pull_script) (ex_vault 0) (ex_query ''abc'' [])
                    always_continue ex_start)))"
proof -
  let ?P = "ex_platform ex_pull_script"
  let ?V = "ex_vault 0"
  let ?looked = "\<lparr>world = 1, trace = [Request ''GET'' ''unix:/lxd/1.0/virtual_machines/inst'' None]\<rparr> :: nat vstate"
  have probe: "transport ?P (world ?looked) ''GET'' (image_id_url ?V (info_id ex_info)) None = (NotFound, 2)"
    by code_simp
  \<comment> \<open>by alias\<close>
  let ?Q = "ex_query ''xenial'' []"
  have lookup: "existing_instance_lookup ?P ?V ?Q ex_start = (Inl LXDNotFoundException, ?looked)"
    by code_simp
  have kind: "query_type ?Q = Alias \<or> is_image_url_supported ?P"
    by code_simp
  have info: "info_for ?V ?Q = Inr ex_info"
    by code_simp
  have requests: "trace ?looked @
      [Request ''GET'' (image_id_url ?V (info_id ex_info)) None,
       Request ''POST'' (images_url ?V) (Some [(''source'', JObject (pull_source_object ?Q ex_info))])] =
     [Request ''GET'' ''unix:/lxd/1.0/virtual_machines/inst'' None,
      Request ''GET'' ''unix:/lxd/1.0/images/abc123'' None,
      Request ''POST'' ''unix:/lxd/1.0/images''
        (Some [(''source'', JObject
           [(''type'', JString ''image''), (''mode'', JString ''pull''),
            (''server'', JString ''https://cloud-images.ubuntu.com/releases''),
            (''protocol'', JString ''simplestreams''), (''image_type'', JString ''virtual-machine''),
            (''alias'', JString ''xenial'')])])]"
    by code_simp
  note by_alias = conjunct1[OF fetch_image_pull_request[OF lookup kind info probe, of 2 always_continue],
      unfolded requests]
  \<comment> \<open>by fingerprint\<close>
  let ?Q' = "ex_query ''abc'' []"
  have lookup': "existing_instance_lookup ?P ?V ?Q' ex_start = (Inl LXDNotFoundException, ?looked)"
    by code_simp
  have kind': "query_type ?Q' = Alias \<or> is_image_url_supported ?P"
    by code_simp
  have info': "info_for ?V ?Q' = Inr ex_info"
    by code_simp
  have requests': "trace ?looked @
      [Request ''GET'' (image_id_url ?V (info_id ex_info)) None,
       Request ''POST'' (images_url ?V) (Some [(''source'', JObject (pull_source_object ?Q' ex_info))])] =
     [Request ''GET'' ''unix:/lxd/1.0/virtual_machines/inst'' None,
      Request ''GET'' ''unix:/lxd/1.0/images/abc123'' None,
      Request ''POST'' ''unix:/lxd/1.0/images''
        (Some [(''source'', JObject
           [(''type'', JString ''image''), (''mode'', JString ''pull''),
            (''server'', JString ''https://cloud-images.ubuntu.com/releases''),
            (''protocol'', JString ''simplestreams''), (''image_type'', JString ''virtual-machine''),
            (''fingerprint'', JString ''abc123'')])])]"
    by code_simp
  note by_fingerprint = conjunct1[OF fetch_image_pull_request[OF lookup' kind' info' probe, of 2 always_continue],
      unfolded requests']
  show ?thesis
    by (intro conjI) (rule by_alias, rule by_fingerprint)
qed

lemma ex_found_run:
  "fetch_image 0 (ex_platform ex_found_script) (ex_vault 0) (ex_query ''xenial'' []) always_continue ex_start =
     (Some (Inr (source_image_of ''abc123'' ex_info)),
      \<lparr>world = 2,
       trace = [Request ''GET'' ''unix:/lxd/1.0/virtual_machines/inst'' None,
                Request ''GET'' ''unix:/lxd/1.0/images/abc123'' None]\<rparr>)"
  by code_simp

theorem fetch_image_result_witness:
  "\<exists>info. info_for (ex_vault 0) (ex_query ''xenial'' []) = Inr info \<and>
     source_image_of ''abc123'' ex_info =
       \<lparr>image_path = [], kernel_path = [], initrd_path = [],
        vm_id = info_id info, stream_location = info_stream_location info,
        original_release = release_title info,
        release_date = version info, aliases = info_aliases info\<rparr>"
  by (rule fetch_image_result[OF ex_found_run])

theorem remove_not_found_is_no_op_witness:
  "remove (ex_platform []) (ex_vault 0) ''inst'' ex_start =
     (Inr (),
      \<lparr>world = 1,
       trace = [Request ''DELETE'' ''unix:/lxd/1.0/virtual-machines/inst'' None,
                Log Level_warning ''lxd image vault'' (not_removing_message ''inst'')]\<rparr>)"
proof -
  have del: "transport (ex_platform []) (world ex_start) ''DELETE'' (instance_url (ex_vault 0) ''inst'') None
      = (NotFound, 1)"
    by code_simp
  have final: "(case NotFound of
        Reply j \<Rightarrow> (Inr (), \<lparr>world = 1::nat, trace = trace ex_start @ [Request ''DELETE'' (instance_url (ex_vault 0) ''inst'') None]\<rparr>)
      | NotFound \<Rightarrow>
          (Inr (), \<lparr>world = 1,
                    trace = trace ex_start @ [Request ''DELETE'' (instance_url (ex_vault 0) ''inst'') None,
                                       Log Level_warning category (not_removing_message ''inst'')]\<rparr>)
      | Failure m \<Rightarrow>
          (Inl (LXDRuntimeError m),
           \<lparr>world = 1, trace = trace ex_start @ [Request ''DELETE'' (instance_url (ex_vault 0) ''inst'') None]\<rparr>)) =
     (Inr (),
      \<lparr>world = 1,
       trace = [Request ''DELETE'' ''unix:/lxd/1.0/virtual-machines/inst'' None,
                Log Level_warning ''lxd image vault'' (not_removing_message ''inst'')]\<rparr>)"
    by code_simp
  show ?thesis
    by (rule remove_not_found_is_no_op[OF del, unfolded final])
qed

theorem update_images_error_escapes_counterexample:
  "update_images 5 (ex_platform ex_update_script) (ex_vault 0) always_continue ex_start =
     (Some (Inl (LXDRuntimeError ''refresh failed'')),
      \<lparr>world = 2,
       trace = [Request ''GET'' ''unix:/lxd/1.0/images'' None,
                Log Level_info ''lxd image vault'' (checking_message ''xenial''),
                Request ''POST'' ''unix:/lxd/1.0/images/f1/refresh'' None]\<rparr>)"
  by code_simp

theorem lookup_failures_stay_inside_update_errors_escape_witness:
  "update_loop 1 (ex_platform [Failure ''refresh failed'']) (ex_vault 0) always_continue
       [ex_image ''f1'' ''2020-01-01T00:00:00.000Z'' True, ex_image ''f2'' ''2020-01-01T00:00:00.000Z'' False]
       ex_start =
     (Some (Inl (LXDRuntimeError ''refresh failed'')),
      \<lparr>world = 1,
       trace = [Log Level_info ''lxd image vault'' (checking_message ''xenial''),
                Request ''POST'' ''unix:/lxd/1.0/images/f1/refresh'' None]\<rparr>) \<and>
   update_loop 2 (ex_platform ex_refresh_fail_script) (ex_vault 0) always_continue
       [ex_image ''f1'' ''2020-01-01T00:00:00.000Z'' True, ex_image ''f2'' ''2020-01-01T00:00:00.000Z'' False]
       ex_start =
     (Some (Inl (LXDRuntimeError ''connection reset'')),
      \<lparr>world = 3,
       trace = [Log Level_info ''lxd image vault'' (checking_message ''xenial''),
                Request ''POST'' ''unix:/lxd/1.0/images/f1/refresh'' None,
                Request ''GET'' ''unix:/lxd/1.0/operations/op1'' None,
                Monitor 0 45 True,
                Request ''GET'' ''unix:/lxd/1.0/operations/op1'' None]\<rparr>) \<and>
   update_loop 1 (ex_platform ex_refresh_abort_script) (ex_vault 0) always_abort
       [ex_image ''f1'' ''2020-01-01T00:00:00.000Z'' True, ex_image ''f2'' ''2020-01-01T00:00:00.000Z'' False]
       ex_start =
     (Some (Inl (AbortedDownloadException ''Download aborted'')),
      \<lparr>world = 3,
       trace = [Log Level_info ''lxd image vault'' (checking_message ''xenial''),
                Request ''POST'' ''unix:/lxd/1.0/images/f1/refresh'' None,
                Request ''GET'' ''unix:/lxd/1.0/operations/op1'' None,
                Monitor 0 45 False,
                Request ''DELETE'' ''unix:/lxd/1.0/operations/op1'' None]\<rparr>) \<and>
   update_loop 1 (ex_platform ex_refresh_fail_script) (ex_vault 0) always_abort
       [ex_image ''f1'' ''2020-01-01T00:00:00.000Z'' True, ex_image ''f2'' ''2020-01-01T00:00:00.000Z'' False]
       ex_start =
     (Some (Inl (LXDRuntimeError ''connection reset'')),
      \<lparr>world = 3,
       trace = [Log Level_info ''lxd image vault'' (checking_message ''xenial''),
                Request ''POST'' ''unix:/lxd/1.0/images/f1/refresh'' None,
                Request ''GET'' ''unix:/lxd/1.0/operations/op1'' None,
                Monitor 0 45 False,
                Request ''DELETE'' ''unix:/lxd/1.0/operations/op1'' None]\<rparr>) \<and>
   update_loop 2 (ex_platform ex_refresh_gone_script) (ex_vault 0) always_continue
       [ex_image ''f1'' ''2020-01-01T00:00:00.000Z'' True, ex_image ''f2'' ''2020-01-01T00:00:00.000Z'' False]
       ex_start =
     (Some (Inr ()),
      \<lparr>world = 3,
       trace = [Log Level_info ''lxd image vault'' (checking_message ''xenial''),
                Request ''POST'' ''unix:/lxd/1.0/images/f1/refresh'' None,
                Request ''GET'' ''unix:/lxd/1.0/operations/op1'' None,
                Monitor 0 45 True,
                Request ''GET'' ''unix:/lxd/1.0/operations/op1'' None]\<rparr>) \<and>
   update_loop 2 (ex_platform ex_refresh_script) (ex_vault 0) always_continue
       [ex_image ''f1'' ''2020-01-01T00:00:00.000Z'' True, ex_image ''f2'' ''2020-01-01T00:00:00.000Z'' False]
       ex_start =
     (Some (Inr ()),
      \<lparr>world = 3,
       trace = [Log Level_info ''lxd image vault'' (checking_message ''xenial''),
                Request ''POST'' ''unix:/lxd/1.0/images/f1/refresh'' None,
                Request ''GET'' ''unix:/lxd/1.0/operations/op1'' None,
                Monitor 0 45 True,
                Request ''GET'' ''unix:/lxd/1.0/operations/op1'' None]\<rparr>)"
proof -
  let ?V = "ex_vault 0"
  let ?img = "ex_image ''f1'' ''2020-01-01T00:00:00.000Z'' True"
  let ?rest = "[ex_image ''f2'' ''2020-01-01T00:00:00.000Z'' False]"
  let ?refresh = "refresh_url ?V (to_string (obj_get (to_object ?img) ''fingerprint''))"
  let ?checking = "Log Level_info category (checking_message (image_release (to_object ?img)))"
  let ?url = "''unix:/lxd/1.0/operations/op1''"
  let ?posted = "\<lparr>world = 1, trace = [?checking, Request ''POST'' ?refresh None]\<rparr> :: nat vstate"
  let ?polled = "\<lparr>world = 2, trace = trace ?posted @ [Request ''GET'' ?url None, Monitor 0 45 True]\<rparr> :: nat vstate"
  let ?asked = "\<lparr>world = 2, trace = trace ?posted @ [Request ''GET'' ?url None]\<rparr> :: nat vstate"
  let ?refused = "\<lparr>world = 2, trace = trace ?asked @ [Monitor 0 45 False]\<rparr> :: nat vstate"
  let ?progress = "parse_percent_as_int
      (to_string (obj_get (to_object (obj_get (to_object (obj_get ex_progress ''metadata'')) ''metadata''))
         ''download_progress''))"
  let ?after_poll = "\<lparr>world = 3,
       trace = [Log Level_info ''lxd image vault'' (checking_message ''xenial''),
                Request ''POST'' ''unix:/lxd/1.0/images/f1/refresh'' None,
                Request ''GET'' ''unix:/lxd/1.0/operations/op1'' None,
                Monitor 0 45 True,
                Request ''GET'' ''unix:/lxd/1.0/operations/op1'' None]\<rparr> :: nat vstate"
  let ?after_delete = "\<lparr>world = 3,
       trace = [Log Level_info ''lxd image vault'' (checking_message ''xenial''),
                Request ''POST'' ''unix:/lxd/1.0/images/f1/refresh'' None,
                Request ''GET'' ''unix:/lxd/1.0/operations/op1'' None,
                Monitor 0 45 False,
                Request ''DELETE'' ''unix:/lxd/1.0/operations/op1'' None]\<rparr> :: nat vstate"
  note general = lookup_failures_stay_inside_update_errors_escape
  have two: "1 + Suc 0 = (2::nat)" by simp
  have one: "0 + Suc 0 = (1::nat)" by simp
  have code: "to_int (obj_get ex_progress ''error_code'') (- 1) = 0"
    by code_simp
  have status: "to_int (obj_get (to_object (obj_get ex_progress ''metadata'')) ''status_code'') (- 1) \<noteq> 200"
    by code_simp
  have after_poll: "\<lparr>world = 3::nat, trace = trace ?polled @ [Request ''GET'' ?url None]\<rparr> = ?after_poll"
    by code_simp
  have after_delete: "\<lparr>world = 3::nat, trace = trace ?refused @ [Request ''DELETE'' ?url None]\<rparr> = ?after_delete"
    by code_simp
  \<comment> \<open>the refresh request fails\<close>
  let ?P1 = "ex_platform [Failure ''refresh failed'']"
  have tracked: "obj_contains (to_object ?img) ''update_source''"
    by code_simp
  have post: "transport ?P1 (world ex_start) ''POST'' ?refresh None = (Failure ''refresh failed'', 1)"
    by code_simp
  have raised: "reply_result (Failure ''refresh failed'') = Inl (LXDRuntimeError ''refresh failed'')"
    by code_simp
  have final1: "\<lparr>world = 1::nat, trace = trace ex_start @ [?checking, Request ''POST'' ?refresh None]\<rparr> =
      \<lparr>world = 1,
       trace = [Log Level_info ''lxd image vault'' (checking_message ''xenial''),
                Request ''POST'' ''unix:/lxd/1.0/images/f1/refresh'' None]\<rparr>"
    by code_simp
  note w1 = conjunct1[OF conjunct2[OF general[where mon = always_continue and n = 1 and images = ?rest]],
      rule_format, OF conjI[OF tracked conjI[OF post raised]], unfolded final1]
  \<comment> \<open>a poll fails\<close>
  let ?P2 = "ex_platform ex_refresh_fail_script"
  have polled2: "refresh_polled ?P2 ?V always_continue ?img 1 ex_start = Some (?url, ?polled)"
    by code_simp
  have reply2: "transport ?P2 (world ?polled) ''GET'' ?url None = (Failure ''connection reset'', 3)"
    by code_simp
  note w2 = conjunct1[OF conjunct2[OF conjunct2[OF general[where n = 0 and images = ?rest]]],
      rule_format, OF conjI[OF polled2 reply2], unfolded after_poll two]
  \<comment> \<open>the monitor asks to stop and the \<^verbatim>\<open>DELETE\<close> is accepted\<close>
  let ?P3 = "ex_platform ex_refresh_abort_script"
  have polled3: "refresh_polled ?P3 ?V always_abort ?img 0 ex_start = Some (?url, ?posted)"
    by code_simp
  have reply3: "lxd_request ?P3 ''GET'' ?url None ?posted = (Inr ex_progress, ?asked)"
    by code_simp
  have abort: "call_monitor always_abort LaunchProgress_IMAGE ?progress ?asked = (False, ?refused)"
    by code_simp
  have del3: "transport ?P3 (world ?refused) ''DELETE'' ?url None = (Reply [], 3)"
    by code_simp
  note w3 = conjunct1[OF conjunct2[OF conjunct2[OF conjunct2[OF general[where n = 0 and images = ?rest]]]],
      THEN mp, OF conjI[OF polled3 conjI[OF reply3 conjI[OF code conjI[OF status conjI[OF abort del3]]]]],
      THEN conjunct1, rule_format, OF refl, unfolded after_delete one]
  \<comment> \<open>the monitor asks to stop and the \<^verbatim>\<open>DELETE\<close> fails\<close>
  have polled4: "refresh_polled ?P2 ?V always_abort ?img 0 ex_start = Some (?url, ?posted)"
    by code_simp
  have reply4: "lxd_request ?P2 ''GET'' ?url None ?posted = (Inr ex_progress, ?asked)"
    by code_simp
  have del4: "transport ?P2 (world ?refused) ''DELETE'' ?url None = (Failure ''connection reset'', 3)"
    by code_simp
  note w4 = conjunct1[OF conjunct2[OF conjunct2[OF conjunct2[OF general[where n = 0 and images = ?rest]]]],
      THEN mp, OF conjI[OF polled4 conjI[OF reply4 conjI[OF code conjI[OF status conjI[OF abort del4]]]]],
      THEN conjunct2, rule_format, OF refl, unfolded after_delete one]
  \<comment> \<open>a poll is answered not-found\<close>
  let ?P5 = "ex_platform ex_refresh_gone_script"
  have polled5: "refresh_polled ?P5 ?V always_continue ?img 1 ex_start = Some (?url, ?polled)"
    by code_simp
  have reply5: "transport ?P5 (world ?polled) ''GET'' ?url None = (NotFound, 3)"
    by code_simp
  have rest5: "update_loop 2 ?P5 ?V always_continue ?rest ?after_poll = (Some (Inr ()), ?after_poll)"
    by code_simp
  note w5 = conjunct1[OF conjunct2[OF conjunct2[OF conjunct2[OF conjunct2[OF
        general[where n = 0 and images = ?rest]]]]],
      rule_format, OF conjI[OF polled5 reply5], unfolded after_poll two rest5]
  \<comment> \<open>a poll carries an error code\<close>
  let ?P6 = "ex_platform ex_refresh_script"
  have polled6: "refresh_polled ?P6 ?V always_continue ?img 1 ex_start = Some (?url, ?polled)"
    by code_simp
  have reply6: "transport ?P6 (world ?polled) ''GET'' ?url None = (Reply ex_failed, 3)"
    by code_simp
  have failed: "obj_get ex_failed ''error_code'' \<noteq> JNum 0"
    by code_simp
  have rest6: "update_loop 2 ?P6 ?V always_continue ?rest ?after_poll = (Some (Inr ()), ?after_poll)"
    by code_simp
  note w6 = conjunct2[OF conjunct2[OF conjunct2[OF conjunct2[OF conjunct2[OF
        general[where n = 0 and images = ?rest]]]]],
      rule_format, OF conjI[OF polled6 conjI[OF reply6 failed]], unfolded after_poll two rest6]
  show ?thesis
    by (intro conjI) (rule w1, rule w2, rule w3, rule w4, rule w5, rule w6)
qed

theorem fetch_image_twice_counterexample:
  "fst (fetch_image 1 (ex_platform ex_twice_script) (ex_vault 0) (ex_query ''xenial'' []) always_continue ex_start)
     = Some (Inr (source_image_of ''abc123'' ex_info)) \<and>
   fst (fetch_image 1 (ex_platform ex_twice_script) (ex_vault 0) (ex_query ''xenial'' []) always_continue
          (snd (fetch_image 1 (ex_platform ex_twice_script) (ex_vault 0) (ex_query ''xenial'' [])
                  always_continue ex_start)))
     = Some (Inr (source_image_of ''abc123'' ex_info)) \<and>
   length (filter (is_pull_request (ex_vault 0))
     (trace (snd (fetch_image 1 (ex_platform ex_twice_script) (ex_vault 0) (ex_query ''xenial'' []) always_continue
        (snd (fetch_image 1 (ex_platform ex_twice_script) (ex_vault 0) (ex_query ''xenial'' [])
                always_continue ex_start)))))) = 2 \<and>
   fst (fetch_image 0 (ex_platform ex_found_script) (ex_vault 0) (ex_query ''xenial'' []) always_continue ex_start)
     = Some (Inr (source_image_of ''abc123'' ex_info)) \<and>
   fst (fetch_image 0 (ex_platform ex_found_script) (ex_new_vault 0) (ex_query ''xenial'' []) always_continue
          (snd (fetch_image 0 (ex_platform ex_found_script) (ex_vault 0) (ex_query ''xenial'' [])
                  always_continue ex_start)))
     = Some (Inr (source_image_of ''def456'' ex_new_info)) \<and>
   source_image_of ''abc123'' ex_info \<noteq> source_image_of ''def456'' ex_new_info"
  by code_simp

theorem fetch_image_existing_image_witness:
  "fetch_image 0 (ex_platform ex_found_script) (ex_vault 0) (ex_query ''xenial'' []) always_continue ex_start =
     (Some (Inr (source_image_of ''abc123'' ex_info)),
      \<lparr>world = 2,
       trace = [Request ''GET'' ''unix:/lxd/1.0/virtual_machines/inst'' None,
                Request ''GET'' ''unix:/lxd/1.0/images/abc123'' None]\<rparr>) \<and>
   fetch_image 0 (ex_platform ex_found_script) (ex_vault 1) (ex_query ''xenial'' []) always_continue
       \<lparr>world = 2,
        trace = [Request ''GET'' ''unix:/lxd/1.0/virtual_machines/inst'' None,
                 Request ''GET'' ''unix:/lxd/1.0/images/abc123'' None]\<rparr> =
     (Some (Inr (source_image_of ''abc123'' ex_info)),
      \<lparr>world = 4,
       trace = [Request ''GET'' ''unix:/lxd/1.0/virtual_machines/inst'' None,
                Request ''GET'' ''unix:/lxd/1.0/images/abc123'' None,
                Request ''GET'' ''unix:/lxd/1.0/virtual_machines/inst'' None,
                Request ''GET'' ''unix:/lxd/1.0/images/abc123'' None]\<rparr>)"
proof -
  let ?P = "ex_platform ex_found_script"
  let ?V = "ex_vault 0"
  let ?Q = "ex_query ''xenial'' []"
  let ?looked = "\<lparr>world = 1, trace = [Request ''GET'' ''unix:/lxd/1.0/virtual_machines/inst'' None]\<rparr> :: nat vstate"
  let ?found = "\<lparr>world = 2,
       trace = [Request ''GET'' ''unix:/lxd/1.0/virtual_machines/inst'' None,
                Request ''GET'' ''unix:/lxd/1.0/images/abc123'' None]\<rparr> :: nat vstate"
  let ?again = "\<lparr>world = 4,
       trace = [Request ''GET'' ''unix:/lxd/1.0/virtual_machines/inst'' None,
                Request ''GET'' ''unix:/lxd/1.0/images/abc123'' None,
                Request ''GET'' ''unix:/lxd/1.0/virtual_machines/inst'' None,
                Request ''GET'' ''unix:/lxd/1.0/images/abc123'' None]\<rparr> :: nat vstate"
  have lookup: "existing_instance_lookup ?P ?V ?Q ex_start = (Inl (LXDRuntimeError ''connection refused''), ?looked)"
    by code_simp
  have kind: "query_type ?Q = Alias \<or> is_image_url_supported ?P"
    by code_simp
  have info: "info_for ?V ?Q = Inr ex_info"
    by code_simp
  have probe: "transport ?P (world ?looked) ''GET'' (image_id_url ?V (info_id ex_info)) None = (Reply [], 2)"
    by code_simp
  have final: "(Some (Inr (source_image_of (info_id ex_info) ex_info)) :: (exn + VMImage) option,
       \<lparr>world = 2::nat,
        trace = trace ex_start @ [Request ''GET'' (existing_instance_url ?V (name ?Q)) None,
                                  Request ''GET'' (image_id_url ?V (info_id ex_info)) None]\<rparr>) =
      (Some (Inr (source_image_of ''abc123'' ex_info)), ?found)"
    by code_simp
  note first = conjunct1[OF fetch_image_existing_image[where n = 0 and mon = always_continue], rule_format,
      OF conjI[OF lookup conjI[OF kind conjI[OF info probe]]], unfolded final]
  let ?b = "case fst (fetch_image 0 ?P (ex_vault 1) ?Q always_continue ?found) of
              Some (Inr img) \<Rightarrow> img
            | _ \<Rightarrow> source_image_of [] ex_new_info"
  have second: "fetch_image 0 ?P (ex_vault 1) ?Q always_continue ?found = (Some (Inr ?b), ?again)"
    by code_simp
  have same_info: "info_for (ex_vault 1) ?Q = info_for ?V ?Q"
    by code_simp
  note same = conjunct2[OF fetch_image_existing_image, rule_format, OF conjI[OF first conjI[OF second same_info]]]
  show ?thesis
    using first second unfolding same[symmetric] by (rule conjI)
qed

theorem prune_expired_images_iff_counterexample:
  "obj_contains (to_object (ex_image ''f3'' ''2100-01-01T00:00:00.000Z'' True)) ''update_source'' \<and>
   days_to_expire (ex_vault 0) = 0 \<and>
   prune_expired_images (ex_platform ex_future_script) (ex_vault 0) ex_start =
     (Inr (), \<lparr>world = 1, trace = [Request ''GET'' ''unix:/lxd/1.0/images'' None]\<rparr>) \<and>
   system_clock_now (ex_platform ex_overflow_script) 1 <
     iso_date_to_msecs (ex_platform ex_overflow_script) ''2300-01-01T00:00:00.000Z'' * 1000000 \<and>
   deleted_urls (trace (snd (prune_expired_images (ex_platform ex_overflow_script) (ex_vault 0) ex_start)))
     = [''unix:/lxd/1.0/images/f5''] \<and>
   image_expired (ex_platform ex_prune_fail_script) (ex_vault 0) 1600000000000000000
     (to_object (ex_image ''f2'' ''2020-01-01T00:00:00.000Z'' True)) \<and>
   fst (prune_expired_images (ex_platform ex_prune_fail_script) (ex_vault 0) ex_start)
     = Inl (LXDRuntimeError ''connection reset'') \<and>
   deleted_urls (trace (snd (prune_expired_images (ex_platform ex_prune_fail_script) (ex_vault 0) ex_start)))
     = [''unix:/lxd/1.0/images/f1'']"
  by code_simp

theorem prune_expired_images_deletes_witness:
  "prune_expired_images (ex_platform ex_prune_script) (ex_vault 0) ex_start =
     (Inr (),
      \<lparr>world = 2,
       trace = [Request ''GET'' ''unix:/lxd/1.0/images'' None,
                Log Level_info ''lxd image vault'' (expired_message ''xenial''),
                Request ''DELETE'' ''unix:/lxd/1.0/images/f1'' None]\<rparr>) \<and>
   deleted_urls (trace (snd (prune_expired_images (ex_platform ex_prune_script) (ex_vault 0) ex_start)))
     = [''unix:/lxd/1.0/images/f1''] \<and>
   image_expired (ex_platform ex_prune_script) (ex_vault 0) 1600000000000000000
       (to_object (ex_image ''f1'' ''2020-01-01T00:00:00.000Z'' True)) \<and>
   image_expired (ex_platform ex_prune_script) (ex_vault 0) 1600000000000000000
       (to_object (ex_image ''f4'' ''2020-09-13T12:26:40.000Z'' True)) \<and>
   \<not> image_expired (ex_platform ex_prune_script) (ex_vault 0) 1600000000000000000
       (to_object (ex_image ''f3'' ''2100-01-01T00:00:00.000Z'' True)) \<and>
   \<not> image_expired (ex_platform ex_prune_script) (ex_vault 1) 1600000000000000000
       (to_object (ex_image ''f4'' ''2020-09-13T12:26:40.000Z'' True)) \<and>
   \<not> image_expired (ex_platform ex_prune_script) (ex_vault 0) 1600000000000000000
       (to_object (ex_image ''f2'' ''2020-01-01T00:00:00.000Z'' False))"
proof -
  let ?P = "ex_platform ex_prune_script"
  let ?now = "1600000000000000000 :: int"
  let ?old = "to_object (ex_image ''f1'' ''2020-01-01T00:00:00.000Z'' True)"
  let ?fresh = "to_object (ex_image ''f4'' ''2020-09-13T12:26:40.000Z'' True)"
  let ?ahead = "to_object (ex_image ''f3'' ''2100-01-01T00:00:00.000Z'' True)"
  let ?plain = "to_object (ex_image ''f2'' ''2020-01-01T00:00:00.000Z'' False)"
  have clock: "\<forall>w. system_clock_now ?P w = ?now"
    by (simp add: ex_platform_def)
  have run: "prune_expired_images ?P (ex_vault 0) ex_start =
     (Inr (),
      \<lparr>world = 2,
       trace = [Request ''GET'' ''unix:/lxd/1.0/images'' None,
                Log Level_info ''lxd image vault'' (expired_message ''xenial''),
                Request ''DELETE'' ''unix:/lxd/1.0/images/f1'' None]\<rparr>)"
    by code_simp
  \<comment> \<open>no days of grace\<close>
  let ?V = "ex_vault 0"
  have listing: "transport ?P (world ex_start) ''GET'' (images_url ?V) None = (Reply ex_mixed_listing, 1)"
    by code_simp
  have eligible: "[''unix:/lxd/1.0/images/f1''] =
      map (image_url ?V)
        (filter (image_expired ?P ?V ?now) (map to_object (to_array (obj_get ex_mixed_listing ''metadata''))))"
    by code_simp
  note general = prune_expired_images_deletes[OF clock listing eligible]
  have returned: "fst (prune_expired_images ?P ?V ex_start) = Inr ()"
    by code_simp
  have appended: "deleted_urls (trace ex_start) @ [''unix:/lxd/1.0/images/f1''] = [''unix:/lxd/1.0/images/f1'']"
    by code_simp
  note deleted = conjunct1[OF conjunct2[OF conjunct2[OF conjunct2[OF general]]], rule_format,
      OF returned, unfolded appended]
  note plain = conjunct1[OF conjunct2[OF conjunct2[OF conjunct2[OF conjunct2[OF conjunct2[OF general]]]]]]
  note zero = conjunct1[OF conjunct2[OF conjunct2[OF conjunct2[OF conjunct2[OF conjunct2[OF
      conjunct2[OF general]]]]]]]
  note never = conjunct2[OF conjunct2[OF conjunct2[OF conjunct2[OF conjunct2[OF conjunct2[OF
      conjunct2[OF conjunct2[OF general]]]]]]]]
  have no_days: "days_to_expire ?V = 0"
    by code_simp
  have old_range: "int64_range (iso_date_to_msecs ?P (to_string (obj_get ?old ''last_used_at'')) * 1000000) \<and>
      int64_range (days_to_expire ?V * 86400000000000) \<and>
      int64_range (iso_date_to_msecs ?P (to_string (obj_get ?old ''last_used_at'')) * 1000000 +
                   days_to_expire ?V * 86400000000000)"
    by code_simp
  have old_due: "obj_contains ?old ''update_source'' \<and>
      iso_date_to_msecs ?P (to_string (obj_get ?old ''last_used_at'')) * 1000000 +
        days_to_expire ?V * 86400000000000 \<le> ?now"
    by code_simp
  note expired = plain[of ?old, rule_format, OF old_range, THEN iffD2, OF old_due]
  have fresh_range: "int64_range (iso_date_to_msecs ?P (to_string (obj_get ?fresh ''last_used_at'')) * 1000000)"
    by code_simp
  have fresh_due: "obj_contains ?fresh ''update_source'' \<and>
      iso_date_to_msecs ?P (to_string (obj_get ?fresh ''last_used_at'')) * 1000000 \<le> ?now"
    by code_simp
  note just_used = zero[of ?fresh, rule_format, OF conjI[OF no_days fresh_range], THEN iffD2, OF fresh_due]
  have ahead_range: "int64_range (iso_date_to_msecs ?P (to_string (obj_get ?ahead ''last_used_at'')) * 1000000)"
    by code_simp
  have ahead_due: "\<not> (obj_contains ?ahead ''update_source'' \<and>
      iso_date_to_msecs ?P (to_string (obj_get ?ahead ''last_used_at'')) * 1000000 \<le> ?now)"
    by code_simp
  have kept: "\<not> image_expired ?P ?V ?now ?ahead"
    using zero[of ?ahead, rule_format, OF conjI[OF no_days ahead_range]] ahead_due by blast
  have untracked: "\<not> obj_contains ?plain ''update_source''"
    by code_simp
  note untouched = never[of ?plain, rule_format, OF untracked]
  \<comment> \<open>one day of grace\<close>
  let ?V' = "ex_vault 1"
  have listing': "transport ?P (world ex_start) ''GET'' (images_url ?V') None = (Reply ex_mixed_listing, 1)"
    by code_simp
  note general' = prune_expired_images_deletes[OF clock listing' refl]
  note one = conjunct1[OF conjunct2[OF conjunct2[OF conjunct2[OF conjunct2[OF conjunct2[OF
      conjunct2[OF conjunct2[OF general']]]]]]]]
  have one_day: "days_to_expire ?V' = 1"
    by code_simp
  have used_now: "iso_date_to_msecs ?P (to_string (obj_get ?fresh ''last_used_at'')) * 1000000 = ?now"
    by code_simp
  have now_range: "int64_range ?now" "int64_range (?now + 86400000000000)"
    by code_simp+
  note intact = one[of ?fresh, rule_format, OF conjI[OF one_day conjI[OF used_now conjI[OF now_range]]]]
  show ?thesis
    by (intro conjI) (rule run, rule deleted, rule expired, rule just_used, rule kept, rule intact,
        rule untouched)
qed

end
